theory Spec2Isabelle
  imports Complex_Main "HOL-Library.AList"
begin

section \<open>JavaScript containers\<close>

text \<open>
  A JavaScript \<^verbatim>\<open>Map\<close> iterates in insertion order: \<^verbatim>\<open>set\<close> on a key that is present
  keeps the key's position, \<^verbatim>\<open>set\<close> on a new key appends, \<^verbatim>\<open>delete\<close> removes the
  entry. It is modelled as an association list with these operations. A \<^verbatim>\<open>Set\<close> is a
  list in insertion order in which \<^verbatim>\<open>add\<close> of a member changes nothing.
\<close>

type_synonym ('k, 'v) js_map = "('k \<times> 'v) list"

definition map_has :: "('k, 'v) js_map \<Rightarrow> 'k \<Rightarrow> bool" where
  "map_has m k = (map_of m k \<noteq> None)"

definition map_get :: "('k, 'v) js_map \<Rightarrow> 'k \<Rightarrow> 'v option" where
  "map_get m k = map_of m k"

definition map_set :: "('k, 'v) js_map \<Rightarrow> 'k \<Rightarrow> 'v \<Rightarrow> ('k, 'v) js_map" where
  "map_set m k v = AList.update k v m"

definition map_delete :: "('k, 'v) js_map \<Rightarrow> 'k \<Rightarrow> ('k, 'v) js_map" where
  "map_delete m k = AList.delete k m"

definition map_size :: "('k, 'v) js_map \<Rightarrow> nat" where
  "map_size m = length m"

type_synonym 'a js_set = "'a list"

definition set_has :: "'a js_set \<Rightarrow> 'a \<Rightarrow> bool" where
  "set_has s x = (x \<in> set s)"

definition set_add :: "'a js_set \<Rightarrow> 'a \<Rightarrow> 'a js_set" where
  "set_add s x = (if x \<in> set s then s else s @ [x])"

definition set_delete :: "'a js_set \<Rightarrow> 'a \<Rightarrow> 'a js_set" where
  "set_delete s x = removeAll x s"

definition set_size :: "'a js_set \<Rightarrow> nat" where
  "set_size s = length s"

section \<open>types.ts\<close>

text \<open>
  Objects of the host (event targets, listener functions, timer handles, stores) are
  compared by identity only; each is a natural number naming the object. A function value
  that can sit in a patched slot is either a function of the host or one of the shims the
  trackers install.
\<close>

type_synonym target = nat
type_synonym listener = nat
type_synonym timer_id = nat
type_synonym store_id = nat

datatype fn =
    Host nat
  | AddEventListenerShim | RemoveEventListenerShim
  | SetTimeoutShim | SetIntervalShim | ClearTimeoutShim | ClearIntervalShim
  | SubscribeShim
  | DevToolsHook fn

datatype suspect_type =
    EventListener | Timer | DomReference | Closure | DetachedDom
  | ReduxSubscription | ReduxSelector

datatype severity = Low | Medium | High | Critical

text \<open>
  The description of a suspect is a template literal of the source. It is kept as the
  template with its arguments; the rendering of the numbers as decimal text is not
  modelled. \<open>ListenersAttached n t\<close> stands for
  \<^verbatim>\<open>`${n} event listeners attached to ${t.constructor.name}`\<close>.
\<close>

datatype description =
    ListenersAttached nat target
  | TimersRunningLong nat
  | ActiveIntervals nat
  | DomNodesDetected nat
  | DetachedNodesFound nat
  | MemoryIncreased real real
  | ActiveSubscriptions nat
  | SubscriptionsActiveLong nat
  | SelectorCalledRecently string nat

record LeakSuspect =
  type :: suspect_type
  severity :: severity
  description :: description
  count :: int

section \<open>The patched entry points of the host\<close>

text \<open>
  The slots the trackers overwrite: \<^verbatim>\<open>EventTarget.prototype.addEventListener\<close>,
  \<^verbatim>\<open>EventTarget.prototype.removeEventListener\<close> and the four timer functions of
  \<^verbatim>\<open>globalThis\<close>.
\<close>

record globals =
  g_addEventListener :: fn
  g_removeEventListener :: fn
  g_setTimeout :: fn
  g_setInterval :: fn
  g_clearTimeout :: fn
  g_clearInterval :: fn

section \<open>event-listener-tracker.ts\<close>

record EventListenerTracker =
  listeners :: "(target, (string, listener js_set) js_map) js_map"
  originalAddEventListener :: fn
  originalRemoveEventListener :: fn

text \<open>
  The constructor saves the two entry points as it finds them and installs the shims
  (\<^verbatim>\<open>patchEventListeners\<close>).
\<close>

definition EventListenerTracker_constructor :: "globals \<Rightarrow> EventListenerTracker \<times> globals" where
  "EventListenerTracker_constructor g =
     (\<lparr>listeners = [],
       originalAddEventListener = g_addEventListener g,
       originalRemoveEventListener = g_removeEventListener g\<rparr>,
      g\<lparr>g_addEventListener := AddEventListenerShim,
        g_removeEventListener := RemoveEventListenerShim\<rparr>)"

text \<open>
  The shim installed as \<^verbatim>\<open>EventTarget.prototype.addEventListener\<close>. \<open>this\<close> is the
  target the host calls it on, \<open>ty\<close> the event type and \<open>l\<close> the listener; the
  \<^verbatim>\<open>options\<close> argument is passed on and takes no part in the tracking. The shim ends
  by calling the original function with the same arguments; that call changes nothing in
  the tracker. The shim for \<^verbatim>\<open>removeEventListener\<close> is alike.
\<close>

definition addEventListener :: "EventListenerTracker \<Rightarrow> target \<Rightarrow> string \<Rightarrow> listener \<Rightarrow> EventListenerTracker" where
  "addEventListener self this ty l =
    (let ls = (if \<not> map_has (listeners self) this then map_set (listeners self) this [] else listeners self);
         targetListeners = (case map_get ls this of Some m \<Rightarrow> m | None \<Rightarrow> []);
         targetListeners = (if \<not> map_has targetListeners ty then map_set targetListeners ty [] else targetListeners);
         listenerSet = (case map_get targetListeners ty of Some s \<Rightarrow> s | None \<Rightarrow> [])
     in self\<lparr>listeners := map_set ls this (map_set targetListeners ty (set_add listenerSet l))\<rparr>)"

definition removeEventListener :: "EventListenerTracker \<Rightarrow> target \<Rightarrow> string \<Rightarrow> listener \<Rightarrow> EventListenerTracker" where
  "removeEventListener self this ty l =
    (case map_get (listeners self) this of
       None \<Rightarrow> self
     | Some targetListeners \<Rightarrow>
         (case map_get targetListeners ty of
            None \<Rightarrow> self
          | Some listenerSet \<Rightarrow>
              (let listenerSet = set_delete listenerSet l;
                   targetListeners = map_set targetListeners ty listenerSet;
                   targetListeners = (if set_size listenerSet = 0 then map_delete targetListeners ty else targetListeners);
                   ls = map_set (listeners self) this targetListeners;
                   ls = (if map_size targetListeners = 0 then map_delete ls this else ls)
               in self\<lparr>listeners := ls\<rparr>)))"

definition getActiveListeners :: "EventListenerTracker \<Rightarrow> nat" where
  "getActiveListeners self =
     fold (\<lambda>(target, ls) count. fold (\<lambda>(ty, listenerSet) count. count + set_size listenerSet) ls count)
       (listeners self) 0"

definition EventListenerTracker_detectLeaks :: "EventListenerTracker \<Rightarrow> LeakSuspect list" where
  "EventListenerTracker_detectLeaks self =
     fold (\<lambda>(target, ls) suspects.
            (let totalListeners = fold (\<lambda>(ty, listenerSet) total. total + set_size listenerSet) ls 0
             in if totalListeners > 50
                then suspects @ [\<lparr>type = EventListener,
                                  severity = (if totalListeners > 100 then Critical else High),
                                  description = ListenersAttached totalListeners target,
                                  count = int totalListeners\<rparr>]
                else suspects))
       (listeners self) []"


definition EventListenerTracker_cleanup :: "EventListenerTracker \<Rightarrow> globals \<Rightarrow> EventListenerTracker \<times> globals" where
  "EventListenerTracker_cleanup self g =
     (self\<lparr>listeners := []\<rparr>,
      g\<lparr>g_addEventListener := originalAddEventListener self,
        g_removeEventListener := originalRemoveEventListener self\<rparr>)"


section \<open>timer-tracker.ts\<close>

text \<open>
  A timer handle is what the host's \<^verbatim>\<open>setTimeout\<close> or \<^verbatim>\<open>setInterval\<close> returned; the
  handle \<open>0\<close> stands for a falsy argument (\<^verbatim>\<open>undefined\<close>, \<^verbatim>\<open>0\<close>), which the clearing
  shims skip. The stack trace stored with an entry is read by no function and is left
  out. Times are milliseconds, as \<^verbatim>\<open>Date.now()\<close> gives them.
\<close>

datatype timer_type = Timeout | Interval

record timer_entry =
  timer_type :: timer_type
  created :: int

record TimerTracker =
  timers :: "(timer_id, timer_entry) js_map"
  originalSetTimeout :: fn
  originalSetInterval :: fn
  originalClearTimeout :: fn
  originalClearInterval :: fn

definition TimerTracker_constructor :: "globals \<Rightarrow> TimerTracker \<times> globals" where
  "TimerTracker_constructor g =
     (\<lparr>timers = [],
       originalSetTimeout = g_setTimeout g,
       originalSetInterval = g_setInterval g,
       originalClearTimeout = g_clearTimeout g,
       originalClearInterval = g_clearInterval g\<rparr>,
      g\<lparr>g_setTimeout := SetTimeoutShim, g_setInterval := SetIntervalShim,
        g_clearTimeout := ClearTimeoutShim, g_clearInterval := ClearIntervalShim\<rparr>)"

text \<open>
  The four shims. \<open>tid\<close> is the handle the original function returned for this call and
  \<open>now\<close> the clock at the call.
\<close>

definition setTimeout :: "TimerTracker \<Rightarrow> timer_id \<Rightarrow> int \<Rightarrow> TimerTracker" where
  "setTimeout self tid now =
     self\<lparr>timers := map_set (timers self) tid \<lparr>timer_type = Timeout, created = now\<rparr>\<rparr>"

definition setInterval :: "TimerTracker \<Rightarrow> timer_id \<Rightarrow> int \<Rightarrow> TimerTracker" where
  "setInterval self tid now =
     self\<lparr>timers := map_set (timers self) tid \<lparr>timer_type = Interval, created = now\<rparr>\<rparr>"

definition clearTimeout :: "TimerTracker \<Rightarrow> timer_id \<Rightarrow> TimerTracker" where
  "clearTimeout self tid =
     (if tid \<noteq> 0 then self\<lparr>timers := map_delete (timers self) tid\<rparr> else self)"

definition clearInterval :: "TimerTracker \<Rightarrow> timer_id \<Rightarrow> TimerTracker" where
  "clearInterval self tid =
     (if tid \<noteq> 0 then self\<lparr>timers := map_delete (timers self) tid\<rparr> else self)"

definition getActiveTimers :: "TimerTracker \<Rightarrow> nat" where
  "getActiveTimers self = map_size (timers self)"

definition TimerTracker_detectLeaks :: "TimerTracker \<Rightarrow> int \<Rightarrow> LeakSuspect list" where
  "TimerTracker_detectLeaks self now =
     (let oldTimerThreshold = 5 * 60 * 1000;
          (oldTimers, totalIntervals) =
             fold (\<lambda>(tid, timer) (oldTimers, totalIntervals).
                     (if now - created timer > oldTimerThreshold then oldTimers + 1 else oldTimers,
                      if timer_type timer = Interval then totalIntervals + 1 else totalIntervals))
               (timers self) (0::nat, 0::nat);
          suspects = [];
          suspects = (if oldTimers > 10
                      then suspects @ [\<lparr>type = Timer,
                                        severity = (if oldTimers > 50 then Critical else High),
                                        description = TimersRunningLong oldTimers,
                                        count = int oldTimers\<rparr>]
                      else suspects);
          suspects = (if totalIntervals > 20
                      then suspects @ [\<lparr>type = Timer,
                                        severity = (if totalIntervals > 100 then Critical else Medium),
                                        description = ActiveIntervals totalIntervals,
                                        count = int totalIntervals\<rparr>]
                      else suspects)
      in suspects)"

definition TimerTracker_cleanup :: "TimerTracker \<Rightarrow> globals \<Rightarrow> TimerTracker \<times> globals" where
  "TimerTracker_cleanup self g =
     (self\<lparr>timers := []\<rparr>,
      g\<lparr>g_setTimeout := originalSetTimeout self, g_setInterval := originalSetInterval self,
        g_clearTimeout := originalClearTimeout self, g_clearInterval := originalClearInterval self\<rparr>)"

section \<open>dom-tracker.ts\<close>

text \<open>
  A node as the mutation callback sees it: its identity and the three tests of
  \<^verbatim>\<open>checkForDetachedNode\<close>. \<open>observer\<close> tells whether the tracker holds a
  \<^verbatim>\<open>MutationObserver\<close> (\<open>False\<close> is the source's \<^verbatim>\<open>null\<close>).
\<close>

record dom_node =
  node_id :: nat
  isElement :: bool
  documentContains :: bool
  parentIsNull :: bool

record mutation =
  addedNodes :: "dom_node list"
  removedNodes :: "dom_node list"

record DOMTracker =
  observer :: bool
  detachedNodes :: "nat js_set"
  nodeCount :: nat

definition DOMTracker_constructor :: "bool \<Rightarrow> DOMTracker" where
  "DOMTracker_constructor mutationObserverDefined =
     \<lparr>observer = mutationObserverDefined, detachedNodes = [], nodeCount = 0\<rparr>"

definition checkForDetachedNode :: "DOMTracker \<Rightarrow> dom_node \<Rightarrow> DOMTracker" where
  "checkForDetachedNode self node =
     (if isElement node
      then (if \<not> documentContains node \<and> parentIsNull node
            then self\<lparr>detachedNodes := set_add (detachedNodes self) (node_id node)\<rparr>
            else self)
      else self)"

definition observerCallback :: "DOMTracker \<Rightarrow> mutation list \<Rightarrow> DOMTracker" where
  "observerCallback self mutations =
     fold (\<lambda>mutation self.
             (let self = fold (\<lambda>node self. self\<lparr>nodeCount := nodeCount self + 1\<rparr>) (addedNodes mutation) self
              in fold (\<lambda>node self. checkForDetachedNode self node) (removedNodes mutation) self))
       mutations self"

definition getDetachedNodeCount :: "DOMTracker \<Rightarrow> nat" where
  "getDetachedNodeCount self = set_size (detachedNodes self)"

text \<open>
  \<^verbatim>\<open>getDOMNodeCount\<close> returns \<^verbatim>\<open>document.querySelectorAll('*').length\<close>, a reading of
  the host: the argument \<open>domNodes\<close>.
\<close>

definition getDOMNodeCount :: "DOMTracker \<Rightarrow> nat \<Rightarrow> nat" where
  "getDOMNodeCount self domNodes = domNodes"

definition DOMTracker_detectLeaks :: "DOMTracker \<Rightarrow> nat \<Rightarrow> LeakSuspect list" where
  "DOMTracker_detectLeaks self domNodes =
     (let suspects = [];
          currentNodeCount = getDOMNodeCount self domNodes;
          detachedCount = getDetachedNodeCount self;
          suspects = (if currentNodeCount > 10000
                      then suspects @ [\<lparr>type = DomReference,
                                        severity = (if currentNodeCount > 50000 then Critical else High),
                                        description = DomNodesDetected currentNodeCount,
                                        count = int currentNodeCount\<rparr>]
                      else suspects);
          suspects = (if detachedCount > 100
                      then suspects @ [\<lparr>type = DetachedDom,
                                        severity = (if detachedCount > 1000 then Critical else Medium),
                                        description = DetachedNodesFound detachedCount,
                                        count = int detachedCount\<rparr>]
                      else suspects)
      in suspects)"

definition DOMTracker_cleanup :: "DOMTracker \<Rightarrow> DOMTracker" where
  "DOMTracker_cleanup self =
     (let self = (if observer self then self\<lparr>observer := False\<rparr> else self)
      in self\<lparr>detachedNodes := []\<rparr>)"


section \<open>redux-tracker.ts\<close>

text \<open>
  A store is an object of the host with a mutable \<^verbatim>\<open>subscribe\<close> property. The heap of
  stores gives the current value of that property for each store (\<open>None\<close> when the
  property is not a function). The window carries the three slots the tracker probes and
  the slot of the Redux DevTools extension.
\<close>

type_synonym store_heap = "store_id \<Rightarrow> fn option"

record window =
  w_REDUX_STORE :: "store_id option"
  w_store :: "store_id option"
  w_STORE :: "store_id option"
  w_REDUX_DEVTOOLS_EXTENSION :: "fn option"

text \<open>
  The key of a subscription entry is \<^verbatim>\<open>Date.now() + Math.random()\<close>: the clock in
  milliseconds plus a number of the host in \<open>[0, 1)\<close>. The sum is taken over the reals;
  in the source it is rounded to a double, so that two keys equal here are equal there.
\<close>

record subscription_entry =
  subscriber :: listener
  sub_created :: int

record selector_entry =
  sel_count :: nat
  lastCalled :: int

record ReduxTracker =
  storeSubscriptions :: "(real, subscription_entry) js_map"
  selectorCalls :: "(string, selector_entry) js_map"
  originalStoreSubscribe :: "fn option"
  storeRef :: "store_id option"

definition patchStore :: "ReduxTracker \<Rightarrow> store_heap \<Rightarrow> store_id \<Rightarrow> ReduxTracker \<times> store_heap" where
  "patchStore self heap store =
     (if storeRef self \<noteq> None then (self, heap)
      else (self\<lparr>storeRef := Some store, originalStoreSubscribe := heap store\<rparr>,
            heap(store := Some SubscribeShim)))"

definition setupDevToolsHook :: "window \<Rightarrow> window" where
  "setupDevToolsHook w =
     (case w_REDUX_DEVTOOLS_EXTENSION w of
        None \<Rightarrow> w
      | Some originalExtension \<Rightarrow> w\<lparr>w_REDUX_DEVTOOLS_EXTENSION := Some (DevToolsHook originalExtension)\<rparr>)"

definition detectStoreFromWindow :: "ReduxTracker \<Rightarrow> window \<Rightarrow> store_heap \<Rightarrow> ReduxTracker \<times> window \<times> store_heap" where
  "detectStoreFromWindow self w heap =
     (let possibleStores = [w_REDUX_STORE w, w_store w, w_STORE w];
          (self, heap) =
             (case find (\<lambda>store. case store of None \<Rightarrow> False | Some st \<Rightarrow> heap st \<noteq> None) possibleStores of
                Some (Some st) \<Rightarrow> patchStore self heap st
              | _ \<Rightarrow> (self, heap));
          w = (if w_REDUX_DEVTOOLS_EXTENSION w \<noteq> None then setupDevToolsHook w else w)
      in (self, w, heap))"

text \<open>
  The constructor: \<^verbatim>\<open>patchReduxStore\<close> probes the window when there is one
  (\<^verbatim>\<open>typeof window !== 'undefined'\<close>).
\<close>

definition ReduxTracker_constructor :: "window option \<Rightarrow> store_heap \<Rightarrow> ReduxTracker \<times> window option \<times> store_heap" where
  "ReduxTracker_constructor w heap =
     (let self = \<lparr>storeSubscriptions = [], selectorCalls = [],
                  originalStoreSubscribe = None, storeRef = None\<rparr>
      in case w of
           None \<Rightarrow> (self, None, heap)
         | Some w \<Rightarrow> (let (self, w, heap) = detectStoreFromWindow self w heap in (self, Some w, heap)))"

text \<open>
  The function the DevTools hook returns creates the store with the host's
  \<^verbatim>\<open>createStore\<close> and hands it to \<^verbatim>\<open>patchStore\<close>; \<open>store\<close> is the store created.
\<close>

definition devToolsCreateStore :: "ReduxTracker \<Rightarrow> store_heap \<Rightarrow> store_id \<Rightarrow> ReduxTracker \<times> store_heap" where
  "devToolsCreateStore self heap store = patchStore self heap store"

text \<open>
  The function installed as \<^verbatim>\<open>store.subscribe\<close>. It calls the original \<^verbatim>\<open>subscribe\<close>,
  which returns the host's unsubscribe function \<open>hostUnsubscribe\<close>; a call of something
  that is no function is a \<^verbatim>\<open>TypeError\<close>. \<open>nowId\<close> and \<open>nowCreated\<close> are the two
  readings of the clock, \<open>random\<close> the value of \<^verbatim>\<open>Math.random()\<close>. The result is the
  wrapped unsubscribe function: a closure over the key and the host's function.
\<close>

datatype js_error = TypeError

record wrapped_unsubscribe =
  subscriptionId :: real
  unsubscribe :: nat

definition subscribe :: "ReduxTracker \<Rightarrow> listener \<Rightarrow> nat \<Rightarrow> int \<Rightarrow> real \<Rightarrow> int \<Rightarrow> js_error + (ReduxTracker \<times> wrapped_unsubscribe)" where
  "subscribe self l hostUnsubscribe nowId random nowCreated =
     (case originalStoreSubscribe self of
        None \<Rightarrow> Inl TypeError
      | Some original \<Rightarrow>
          (let sid = of_int nowId + random
           in Inr (self\<lparr>storeSubscriptions :=
                          map_set (storeSubscriptions self) sid \<lparr>subscriber = l, sub_created = nowCreated\<rparr>\<rparr>,
                   \<lparr>subscriptionId = sid, unsubscribe = hostUnsubscribe\<rparr>)))"

text \<open>
  Calling the wrapped unsubscribe function: the entry is deleted, then the host's
  unsubscribe function is called; the second component names the function called.
\<close>

definition call_unsubscribe :: "ReduxTracker \<Rightarrow> wrapped_unsubscribe \<Rightarrow> ReduxTracker \<times> nat" where
  "call_unsubscribe self u =
     (self\<lparr>storeSubscriptions := map_delete (storeSubscriptions self) (subscriptionId u)\<rparr>,
      unsubscribe u)"

definition trackSelectorUsage :: "ReduxTracker \<Rightarrow> string \<Rightarrow> int \<Rightarrow> ReduxTracker" where
  "trackSelectorUsage self selectorName now =
     (let current = (case map_get (selectorCalls self) selectorName of
                       Some c \<Rightarrow> c
                     | None \<Rightarrow> \<lparr>sel_count = 0, lastCalled = 0\<rparr>)
      in self\<lparr>selectorCalls := map_set (selectorCalls self) selectorName
                                   \<lparr>sel_count = sel_count current + 1, lastCalled = now\<rparr>\<rparr>)"

definition getActiveSubscriptions :: "ReduxTracker \<Rightarrow> nat" where
  "getActiveSubscriptions self = map_size (storeSubscriptions self)"

definition ReduxTracker_detectLeaks :: "ReduxTracker \<Rightarrow> int \<Rightarrow> LeakSuspect list" where
  "ReduxTracker_detectLeaks self now =
     (let suspects = [];
          size = map_size (storeSubscriptions self);
          suspects = (if size > 50
                      then suspects @ [\<lparr>type = ReduxSubscription,
                                        severity = (if size > 200 then Critical else High),
                                        description = ActiveSubscriptions size,
                                        count = int size\<rparr>]
                      else suspects);
          oldSubscriptions =
             fold (\<lambda>(sid, sub) oldSubscriptions.
                     if now - sub_created sub > 10 * 60 * 1000 then oldSubscriptions + 1 else oldSubscriptions)
               (storeSubscriptions self) (0::nat);
          suspects = (if oldSubscriptions > 10
                      then suspects @ [\<lparr>type = ReduxSubscription,
                                        severity = (if oldSubscriptions > 50 then Critical else Medium),
                                        description = SubscriptionsActiveLong oldSubscriptions,
                                        count = int oldSubscriptions\<rparr>]
                      else suspects)
      in fold (\<lambda>(selector, stats) suspects.
                 if sel_count stats > 1000 \<and> now - lastCalled stats < 60000
                 then suspects @ [\<lparr>type = ReduxSelector,
                                   severity = (if sel_count stats > 5000 then Critical else High),
                                   description = SelectorCalledRecently selector (sel_count stats),
                                   count = int (sel_count stats)\<rparr>]
                 else suspects)
           (selectorCalls self) suspects)"

definition ReduxTracker_cleanup :: "ReduxTracker \<Rightarrow> store_heap \<Rightarrow> ReduxTracker \<times> store_heap" where
  "ReduxTracker_cleanup self heap =
     (let heap = (case (storeRef self, originalStoreSubscribe self) of
                    (Some store, Some original) \<Rightarrow> heap(store := Some original)
                  | _ \<Rightarrow> heap)
      in (self\<lparr>storeSubscriptions := [], selectorCalls := []\<rparr>, heap))"


section \<open>memory-leak-detector.ts\<close>

text \<open>
  \<open>DetectorConfig\<close> is the configuration as the caller gives it, every field optional;
  \<open>RequiredConfig\<close> is the configuration the constructor stores, with the defaults filled
  in. The two callbacks are functions of the caller: the model records each call of a
  callback, with its argument, in the order the calls are made, and takes the callbacks
  to return normally. Where two records of the source share a field name, one of them
  carries a prefix or suffix here: \<open>cfg_\<close> for the stored configuration, \<open>report_\<close> for
  the report, \<open>pm_\<close> for \<^verbatim>\<open>performance.memory\<close>, \<open>timers_count\<close> and
  \<open>detachedNodes_count\<close> in the counts of a snapshot, and \<open>reportIntervalId\<close> for the
  detector's \<^verbatim>\<open>reportInterval\<close>.
\<close>

record DetectorConfig =
  enableEventListenerTracking :: "bool option"
  enableTimerTracking :: "bool option"
  enableDOMTracking :: "bool option"
  enableReduxTracking :: "bool option"
  enablePerformanceObserver :: "bool option"
  reportInterval :: "int option"
  memoryThreshold :: "int option"

record RequiredConfig =
  cfg_enableEventListenerTracking :: bool
  cfg_enableTimerTracking :: bool
  cfg_enableDOMTracking :: bool
  cfg_enableReduxTracking :: bool
  cfg_enablePerformanceObserver :: bool
  cfg_reportInterval :: int
  cfg_memoryThreshold :: int

record memory_counters =
  heapUsed :: int
  heapTotal :: int
  external :: int
  arrayBuffers :: int

record resource_counts =
  eventListeners :: nat
  timers_count :: nat
  domNodes :: nat
  detachedNodes_count :: nat

record MemorySnapshot =
  timestamp :: int
  memory :: memory_counters
  counts :: resource_counts

record MemoryLeakReport =
  report_timestamp :: int
  report_heapUsed :: int
  report_heapTotal :: int
  report_external :: int
  report_arrayBuffers :: int
  leakSuspects :: "LeakSuspect list"
  recommendations :: "string list"

datatype callback_call = OnLeak LeakSuspect | OnReport MemoryLeakReport

text \<open>
  What the host holds besides the detector: the patched entry points, the window (if
  any), the stores, and whether \<^verbatim>\<open>MutationObserver\<close> is defined.
\<close>

record host =
  globals :: globals
  window :: "window option"
  stores :: store_heap
  mutationObserverDefined :: bool

text \<open>
  What one synchronous call reads from the host: the clock, \<^verbatim>\<open>performance.memory\<close>
  (absent in some hosts, and each of its fields may be absent) and the number of
  elements in the document.
\<close>

record performance_memory =
  usedJSHeapSize :: "int option"
  totalJSHeapSize :: "int option"
  pm_external :: "int option"
  pm_arrayBuffers :: "int option"

record readings =
  now :: int
  perf_memory :: "performance_memory option"
  document_elements :: nat

record MemoryLeakDetector =
  config :: RequiredConfig
  eventTracker :: "EventListenerTracker option"
  timerTracker :: "TimerTracker option"
  domTracker :: "DOMTracker option"
  reduxTracker :: "ReduxTracker option"
  snapshots :: "MemorySnapshot list"
  reportIntervalId :: "timer_id option"
  isRunning :: bool

definition or_default :: "'a option \<Rightarrow> 'a \<Rightarrow> 'a" where
  "or_default v d = (case v of Some x \<Rightarrow> x | None \<Rightarrow> d)"

definition init :: "RequiredConfig \<Rightarrow> host \<Rightarrow> MemoryLeakDetector \<times> host" where
  "init cfg h =
     (let (eventTracker, g) =
            (if cfg_enableEventListenerTracking cfg
             then (let (t, g) = EventListenerTracker_constructor (globals h) in (Some t, g))
             else (None, globals h));
          (timerTracker, g) =
            (if cfg_enableTimerTracking cfg
             then (let (t, g) = TimerTracker_constructor g in (Some t, g))
             else (None, g));
          domTracker =
            (if cfg_enableDOMTracking cfg
             then Some (DOMTracker_constructor (mutationObserverDefined h))
             else None);
          (reduxTracker, w, st) =
            (if cfg_enableReduxTracking cfg
             then (let (t, w, st) = ReduxTracker_constructor (window h) (stores h) in (Some t, w, st))
             else (None, window h, stores h))
      in (\<lparr>config = cfg, eventTracker = eventTracker, timerTracker = timerTracker,
           domTracker = domTracker, reduxTracker = reduxTracker, snapshots = [],
           reportIntervalId = None, isRunning = False\<rparr>,
          h\<lparr>globals := g, window := w, stores := st\<rparr>))"

definition MemoryLeakDetector_constructor :: "DetectorConfig \<Rightarrow> host \<Rightarrow> MemoryLeakDetector \<times> host" where
  "MemoryLeakDetector_constructor c h =
     init \<lparr>cfg_enableEventListenerTracking = or_default (enableEventListenerTracking c) True,
           cfg_enableTimerTracking = or_default (enableTimerTracking c) True,
           cfg_enableDOMTracking = or_default (enableDOMTracking c) True,
           cfg_enableReduxTracking = or_default (enableReduxTracking c) True,
           cfg_enablePerformanceObserver = or_default (enablePerformanceObserver c) True,
           cfg_reportInterval = or_default (reportInterval c) 30000,
           cfg_memoryThreshold = or_default (memoryThreshold c) 300\<rparr> h"

text \<open>
  \<^verbatim>\<open>getMemoryInfo\<close> returns \<^verbatim>\<open>performance.memory\<close> or, without it, an object that
  has none of the four fields \<^verbatim>\<open>takeSnapshot\<close> reads; \<^verbatim>\<open>x || 0\<close> turns an absent
  field (and a zero) into \<open>0\<close>.
\<close>

definition getMemoryInfo :: "readings \<Rightarrow> performance_memory" where
  "getMemoryInfo r =
     (case perf_memory r of
        Some m \<Rightarrow> m
      | None \<Rightarrow> \<lparr>usedJSHeapSize = None, totalJSHeapSize = None, pm_external = None, pm_arrayBuffers = None\<rparr>)"

definition takeSnapshot :: "MemoryLeakDetector \<Rightarrow> readings \<Rightarrow> MemorySnapshot \<times> MemoryLeakDetector" where
  "takeSnapshot self r =
     (let m = getMemoryInfo r;
          snapshot =
            \<lparr>timestamp = now r,
             memory = \<lparr>heapUsed = or_default (usedJSHeapSize m) 0,
                       heapTotal = or_default (totalJSHeapSize m) 0,
                       external = or_default (pm_external m) 0,
                       arrayBuffers = or_default (pm_arrayBuffers m) 0\<rparr>,
             counts = \<lparr>eventListeners = or_default (map_option getActiveListeners (eventTracker self)) 0,
                       timers_count = or_default (map_option getActiveTimers (timerTracker self)) 0,
                       domNodes = or_default (map_option (\<lambda>t. getDOMNodeCount t (document_elements r)) (domTracker self)) 0,
                       detachedNodes_count = or_default (map_option getDetachedNodeCount (domTracker self)) 0\<rparr>\<rparr>;
          snaps = snapshots self @ [snapshot];
          snaps = (if length snaps > 100 then drop (length snaps - 100) snaps else snaps)
      in (snapshot, self\<lparr>snapshots := snaps\<rparr>))"

text \<open>
  JavaScript numbers are doubles. The heap counters are whole numbers of bytes, and the
  division by \<open>1024 * 1024\<close> only changes the exponent of a double, so the quotient is
  exact and the comparisons and the rounding are those of the reals. \<^verbatim>\<open>Math.round\<close>
  rounds to the nearest integer, a tie towards \<open>+\<infinity>\<close>.
\<close>

definition Math_round :: "real \<Rightarrow> int" where
  "Math_round x = \<lfloor>x + 1 / 2\<rfloor>"

definition detectLeaks :: "MemoryLeakDetector \<Rightarrow> readings \<Rightarrow> LeakSuspect list" where
  "detectLeaks self r =
     (let suspects = [];
          suspects = (case eventTracker self of
                        Some t \<Rightarrow> suspects @ EventListenerTracker_detectLeaks t
                      | None \<Rightarrow> suspects);
          suspects = (case timerTracker self of
                        Some t \<Rightarrow> suspects @ TimerTracker_detectLeaks t (now r)
                      | None \<Rightarrow> suspects);
          suspects = (case domTracker self of
                        Some t \<Rightarrow> suspects @ DOMTracker_detectLeaks t (document_elements r)
                      | None \<Rightarrow> suspects);
          suspects = (case reduxTracker self of
                        Some t \<Rightarrow> suspects @ ReduxTracker_detectLeaks t (now r)
                      | None \<Rightarrow> suspects)
      in if length (snapshots self) \<ge> 2
         then (let latest = snapshots self ! (length (snapshots self) - 1);
                   previous = snapshots self ! (length (snapshots self) - 2);
                   memoryGrowth = heapUsed (memory latest) - heapUsed (memory previous);
                   growthMB = real_of_int memoryGrowth / (1024 * 1024)
               in if growthMB > 10
                  then suspects @ [\<lparr>type = Closure,
                                    severity = (if growthMB > 50 then Critical else High),
                                    description = MemoryIncreased growthMB (real_of_int (cfg_reportInterval (config self)) / 1000),
                                    count = Math_round growthMB\<rparr>]
                  else suspects)
         else suspects)"

definition generateRecommendations :: "LeakSuspect list \<Rightarrow> string list" where
  "generateRecommendations suspects =
     (let recommendations =
            fold (\<lambda>suspect recommendations.
                    (case type suspect of
                       EventListener \<Rightarrow> recommendations @ [''Remove event listeners when components unmount or are no longer needed'']
                     | Timer \<Rightarrow> recommendations @ [''Clear intervals and timeouts when they are no longer needed'']
                     | DomReference \<Rightarrow> recommendations @ [''Avoid keeping references to DOM elements after they are removed'']
                     | DetachedDom \<Rightarrow> recommendations @ [''Check for detached DOM nodes that should be garbage collected'']
                     | Closure \<Rightarrow> recommendations @ [''Review closures that might be holding references to large objects'']
                     | ReduxSubscription \<Rightarrow> recommendations @ [''Ensure Redux store subscriptions are properly unsubscribed when components unmount'']
                     | ReduxSelector \<Rightarrow> recommendations @ [''Check for infinite re-renders caused by improperly memoized selectors'']))
              suspects []
      in fold (\<lambda>r s. set_add s r) recommendations [])"

definition generateReport :: "MemoryLeakDetector \<Rightarrow> readings \<Rightarrow> MemoryLeakReport \<times> MemoryLeakDetector \<times> callback_call list" where
  "generateReport self r =
     (let (snapshot, self) = takeSnapshot self r;
          suspects = detectLeaks self r;
          recs = generateRecommendations suspects;
          report = \<lparr>report_timestamp = timestamp snapshot,
                    report_heapUsed = heapUsed (memory snapshot),
                    report_heapTotal = heapTotal (memory snapshot),
                    report_external = external (memory snapshot),
                    report_arrayBuffers = arrayBuffers (memory snapshot),
                    leakSuspects = suspects,
                    recommendations = recs\<rparr>;
          calls = fold (\<lambda>suspect calls. calls @ [OnLeak suspect]) suspects [];
          calls = calls @ [OnReport report]
      in (report, self, calls))"

definition getSnapshots :: "MemoryLeakDetector \<Rightarrow> MemorySnapshot list" where
  "getSnapshots self = snapshots self"

text \<open>
  \<^verbatim>\<open>start\<close> and \<^verbatim>\<open>stop\<close> call \<^verbatim>\<open>globalThis.setInterval\<close> and
  \<^verbatim>\<open>globalThis.clearInterval\<close> as they stand: when the slot holds the shim of the
  detector's own timer tracker, the call goes through that tracker. \<open>tid\<close> is the handle
  the host returns for the report timer.
\<close>

definition start :: "MemoryLeakDetector \<Rightarrow> host \<Rightarrow> readings \<Rightarrow> timer_id \<Rightarrow> MemoryLeakDetector" where
  "start self h r tid =
     (if isRunning self then self
      else (let self = self\<lparr>isRunning := True\<rparr>;
                (snapshot, self) = takeSnapshot self r;
                self = (if g_setInterval (globals h) = SetIntervalShim
                        then self\<lparr>timerTracker := map_option (\<lambda>t. setInterval t tid (now r)) (timerTracker self)\<rparr>
                        else self)
            in self\<lparr>reportIntervalId := Some tid\<rparr>))"

definition stop :: "MemoryLeakDetector \<Rightarrow> host \<Rightarrow> MemoryLeakDetector" where
  "stop self h =
     (if \<not> isRunning self then self
      else (let self = self\<lparr>isRunning := False\<rparr>
            in case reportIntervalId self of
                 None \<Rightarrow> self
               | Some tid \<Rightarrow>
                   (if tid \<noteq> 0
                    then (let self = (if g_clearInterval (globals h) = ClearIntervalShim
                                      then self\<lparr>timerTracker := map_option (\<lambda>t. clearInterval t tid) (timerTracker self)\<rparr>
                                      else self)
                          in self\<lparr>reportIntervalId := None\<rparr>)
                    else self)))"

definition patchReduxStore :: "MemoryLeakDetector \<Rightarrow> host \<Rightarrow> store_id \<Rightarrow> MemoryLeakDetector \<times> host" where
  "patchReduxStore self h store =
     (case reduxTracker self of
        Some t \<Rightarrow> (let (t, st) = patchStore t (stores h) store
                   in (self\<lparr>reduxTracker := Some t\<rparr>, h\<lparr>stores := st\<rparr>))
      | None \<Rightarrow> (self, h))"

definition cleanup :: "MemoryLeakDetector \<Rightarrow> host \<Rightarrow> MemoryLeakDetector \<times> host" where
  "cleanup self h =
     (let self = stop self h;
          (eventTracker, g) =
             (case eventTracker self of
                Some t \<Rightarrow> (let (t, g) = EventListenerTracker_cleanup t (globals h) in (Some t, g))
              | None \<Rightarrow> (None, globals h));
          (timerTracker, g) =
             (case timerTracker self of
                Some t \<Rightarrow> (let (t, g) = TimerTracker_cleanup t g in (Some t, g))
              | None \<Rightarrow> (None, g));
          domTracker = map_option DOMTracker_cleanup (domTracker self);
          (reduxTracker, st) =
             (case reduxTracker self of
                Some t \<Rightarrow> (let (t, st) = ReduxTracker_cleanup t (stores h) in (Some t, st))
              | None \<Rightarrow> (None, stores h))
      in (self\<lparr>eventTracker := eventTracker, timerTracker := timerTracker,
               domTracker := domTracker, reduxTracker := reduxTracker, snapshots := []\<rparr>,
          h\<lparr>globals := g, stores := st\<rparr>))"

section \<open>Observations and concrete inputs\<close>

subsection \<open>The listener registry: counts and suspects\<close>

text \<open>
  \<open>tracked self t ty l\<close>: the registry holds the handle \<open>l\<close> under the key \<open>(t, ty)\<close>.
  \<open>registry_ok\<close> is the shape every registry built by the shims has: no key twice, no
  empty inner map, no empty set, no handle twice in a set. \<open>weight f m\<close> adds \<open>f\<close> over
  the values of a map. \<open>listener_calls\<close> runs a sequence of calls of the two shims;
  \<open>acquires\<close> counts its \<^verbatim>\<open>addEventListener\<close> calls, \<open>new_acquires\<close> those whose
  handle is not tracked when the call arrives, and \<open>matched_releases\<close> the
  \<^verbatim>\<open>removeEventListener\<close> calls whose handle is tracked when the call arrives.
  \<open>key_count\<close> is the number of listeners under one key, \<open>target_count\<close> the number
  under all keys of one target, and \<open>listener_suspect t n\<close> the suspect the source builds
  for a target \<open>t\<close> with \<open>n\<close> listeners. \<open>globals0\<close> is a host with its own six entry
  points, and \<open>two_kinds\<close> adds 26 listeners for one event kind and 25 for another to
  one target.
\<close>

definition inner_ok :: "(string, listener js_set) js_map \<Rightarrow> bool" where
  "inner_ok m = (distinct (map fst m) \<and> list_all (\<lambda>(ty, s). s \<noteq> [] \<and> distinct s) m)"

definition registry_ok :: "(target, (string, listener js_set) js_map) js_map \<Rightarrow> bool" where
  "registry_ok ls = (distinct (map fst ls) \<and> list_all (\<lambda>(t, m). m \<noteq> [] \<and> inner_ok m) ls)"

definition tracked :: "EventListenerTracker \<Rightarrow> target \<Rightarrow> string \<Rightarrow> listener \<Rightarrow> bool" where
  "tracked self t ty l =
     (case map_get (listeners self) t of
        None \<Rightarrow> False
      | Some m \<Rightarrow> (case map_get m ty of None \<Rightarrow> False | Some s \<Rightarrow> set_has s l))"

definition weight :: "('v \<Rightarrow> nat) \<Rightarrow> ('k, 'v) js_map \<Rightarrow> nat" where
  "weight f m = sum_list (map (\<lambda>(k, v). f v) m)"

datatype listener_call =
    AddCall target string listener
  | RemoveCall target string listener

fun listener_calls :: "EventListenerTracker \<Rightarrow> listener_call list \<Rightarrow> EventListenerTracker" where
  "listener_calls self [] = self"
| "listener_calls self (AddCall t ty l # cs) = listener_calls (addEventListener self t ty l) cs"
| "listener_calls self (RemoveCall t ty l # cs) = listener_calls (removeEventListener self t ty l) cs"

fun acquires :: "listener_call list \<Rightarrow> nat" where
  "acquires [] = 0"
| "acquires (AddCall t ty l # cs) = Suc (acquires cs)"
| "acquires (RemoveCall t ty l # cs) = acquires cs"

fun new_acquires :: "EventListenerTracker \<Rightarrow> listener_call list \<Rightarrow> nat" where
  "new_acquires self [] = 0"
| "new_acquires self (AddCall t ty l # cs) =
     (if tracked self t ty l then 0 else 1) + new_acquires (addEventListener self t ty l) cs"
| "new_acquires self (RemoveCall t ty l # cs) = new_acquires (removeEventListener self t ty l) cs"

fun matched_releases :: "EventListenerTracker \<Rightarrow> listener_call list \<Rightarrow> nat" where
  "matched_releases self [] = 0"
| "matched_releases self (AddCall t ty l # cs) = matched_releases (addEventListener self t ty l) cs"
| "matched_releases self (RemoveCall t ty l # cs) =
     (if tracked self t ty l then 1 else 0) + matched_releases (removeEventListener self t ty l) cs"

definition globals0 :: globals where
  "globals0 = \<lparr>g_addEventListener = Host 0, g_removeEventListener = Host 1, g_setTimeout = Host 2,
     g_setInterval = Host 3, g_clearTimeout = Host 4, g_clearInterval = Host 5\<rparr>"

definition key_count :: "EventListenerTracker \<Rightarrow> target \<Rightarrow> string \<Rightarrow> nat" where
  "key_count self t ty =
     (case map_get (listeners self) t of
        None \<Rightarrow> 0
      | Some m \<Rightarrow> (case map_get m ty of None \<Rightarrow> 0 | Some s \<Rightarrow> set_size s))"

definition target_count :: "EventListenerTracker \<Rightarrow> target \<Rightarrow> nat" where
  "target_count self t =
     (case map_get (listeners self) t of
        None \<Rightarrow> 0
      | Some m \<Rightarrow> sum_list (map (\<lambda>(ty, s). set_size s) m))"

definition listener_suspect :: "target \<Rightarrow> nat \<Rightarrow> LeakSuspect" where
  "listener_suspect t n =
     \<lparr>type = EventListener, severity = (if n > 100 then Critical else High),
      description = ListenersAttached n t, count = int n\<rparr>"

definition two_kinds :: "listener_call list" where
  "two_kinds = map (AddCall 0 ''click'') [0..<26] @ map (AddCall 0 ''keydown'') [0..<25]"

subsection \<open>The detector: history, growth rule, report and recommendations\<close>

text \<open>
  \<open>take_snapshots\<close> takes one snapshot per reading. \<open>tracker_suspects\<close> is what the
  trackers present return, in the order \<^verbatim>\<open>detectLeaks\<close> asks them; \<open>growth_suspects\<close> is
  \<^verbatim>\<open>detectLeaks\<close> of the detector without its trackers, that is the growth rule alone.
  \<open>MB\<close> is the source's \<open>1024 * 1024\<close> bytes. \<open>recommendation\<close> is the advice the
  \<^verbatim>\<open>switch\<close> of \<^verbatim>\<open>generateRecommendations\<close> pushes for a category, and
  \<open>first_occurrences\<close> keeps the first occurrence of each element of a list. The
  \<open>category_rank\<close> numbers the categories in the order in which \<^verbatim>\<open>detectLeaks\<close>
  emits them, and \<open>in_band lo hi xs\<close> says that the categories of \<open>xs\<close> come in that
  order and lie between \<open>lo\<close> and \<open>hi\<close>. The remaining definitions are concrete inputs:
  a configuration with every field absent and one that enables the structural tracker
  alone, a host without window and stores, readings without \<^verbatim>\<open>performance.memory\<close>,
  readings with a given number of elements in the document, a snapshot with a given
  heap-used counter, a reading with 12 MB of heap and 20000 elements, and a detector
  whose history holds one snapshot with an empty heap.
\<close>

definition take_snapshots :: "MemoryLeakDetector \<Rightarrow> readings list \<Rightarrow> MemoryLeakDetector" where
  "take_snapshots self rs = fold (\<lambda>r self. snd (takeSnapshot self r)) rs self"


definition last_n :: "nat \<Rightarrow> 'a list \<Rightarrow> 'a list" where
  "last_n n xs = drop (length xs - n) xs"


definition MB :: int where
  "MB = 1024 * 1024"


definition growth_suspects :: "MemoryLeakDetector \<Rightarrow> readings \<Rightarrow> LeakSuspect list" where
  "growth_suspects self r =
     detectLeaks (self\<lparr>eventTracker := None, timerTracker := None, domTracker := None, reduxTracker := None\<rparr>) r"


definition heap_increase :: "MemorySnapshot list \<Rightarrow> int" where
  "heap_increase xs = heapUsed (memory (last xs)) - heapUsed (memory (last (butlast xs)))"


definition tracker_suspects :: "MemoryLeakDetector \<Rightarrow> readings \<Rightarrow> LeakSuspect list" where
  "tracker_suspects self r =
     (case eventTracker self of Some t \<Rightarrow> EventListenerTracker_detectLeaks t | None \<Rightarrow> [])
   @ (case timerTracker self of Some t \<Rightarrow> TimerTracker_detectLeaks t (now r) | None \<Rightarrow> [])
   @ (case domTracker self of Some t \<Rightarrow> DOMTracker_detectLeaks t (document_elements r) | None \<Rightarrow> [])
   @ (case reduxTracker self of Some t \<Rightarrow> ReduxTracker_detectLeaks t (now r) | None \<Rightarrow> [])"


definition recommendation :: "suspect_type \<Rightarrow> string" where
  "recommendation ty =
     (case ty of
        EventListener \<Rightarrow> ''Remove event listeners when components unmount or are no longer needed''
      | Timer \<Rightarrow> ''Clear intervals and timeouts when they are no longer needed''
      | DomReference \<Rightarrow> ''Avoid keeping references to DOM elements after they are removed''
      | DetachedDom \<Rightarrow> ''Check for detached DOM nodes that should be garbage collected''
      | Closure \<Rightarrow> ''Review closures that might be holding references to large objects''
      | ReduxSubscription \<Rightarrow> ''Ensure Redux store subscriptions are properly unsubscribed when components unmount''
      | ReduxSelector \<Rightarrow> ''Check for infinite re-renders caused by improperly memoized selectors'')"


definition first_occurrences :: "'a list \<Rightarrow> 'a list" where
  "first_occurrences xs = fold (\<lambda>x s. set_add s x) xs []"


definition default_config :: DetectorConfig where
  "default_config =
     \<lparr>enableEventListenerTracking = None, enableTimerTracking = None, enableDOMTracking = None,
      enableReduxTracking = None, enablePerformanceObserver = None, reportInterval = None,
      memoryThreshold = None\<rparr>"

definition plain_host :: host where
  "plain_host = \<lparr>globals = globals0, window = None, stores = (\<lambda>s. None), mutationObserverDefined = False\<rparr>"

definition reading_at :: "nat \<Rightarrow> readings" where
  "reading_at n = \<lparr>now = int n, perf_memory = None, document_elements = 0\<rparr>"

definition snapshot_with_heap :: "int \<Rightarrow> MemorySnapshot" where
  "snapshot_with_heap h =
     \<lparr>timestamp = 0,
      memory = \<lparr>heapUsed = h, heapTotal = 0, external = 0, arrayBuffers = 0\<rparr>,
      counts = \<lparr>eventListeners = 0, timers_count = 0, domNodes = 0, detachedNodes_count = 0\<rparr>\<rparr>"

definition busy_reading :: readings where
  "busy_reading =
     \<lparr>now = 2000,
      perf_memory = Some \<lparr>usedJSHeapSize = Some (12 * MB), totalJSHeapSize = None,
                          pm_external = None, pm_arrayBuffers = None\<rparr>,
      document_elements = 20000\<rparr>"

definition detector_with_history :: MemoryLeakDetector where
  "detector_with_history =
     (fst (MemoryLeakDetector_constructor default_config plain_host))\<lparr>snapshots := [snapshot_with_heap 0]\<rparr>"

definition category_rank :: "suspect_type \<Rightarrow> nat" where
  "category_rank c =
     (case c of EventListener \<Rightarrow> 0 | Timer \<Rightarrow> 1 | DomReference \<Rightarrow> 2 | DetachedDom \<Rightarrow> 3
      | ReduxSubscription \<Rightarrow> 4 | ReduxSelector \<Rightarrow> 5 | Closure \<Rightarrow> 6)"

definition in_band :: "nat \<Rightarrow> nat \<Rightarrow> LeakSuspect list \<Rightarrow> bool" where
  "in_band lo hi xs =
     (sorted (map (\<lambda>x. category_rank (type x)) xs)
      \<and> list_all (\<lambda>x. lo \<le> category_rank (type x) \<and> category_rank (type x) \<le> hi) xs)"

definition dom_only_config :: DetectorConfig where
  "dom_only_config =
     \<lparr>enableEventListenerTracking = Some False, enableTimerTracking = Some False,
      enableDOMTracking = None, enableReduxTracking = Some False,
      enablePerformanceObserver = None, reportInterval = None, memoryThreshold = None\<rparr>"

definition reading_with_elements :: "nat \<Rightarrow> readings" where
  "reading_with_elements n = \<lparr>now = 0, perf_memory = None, document_elements = n\<rparr>"

subsection \<open>The timer tracker's rules\<close>

text \<open>
  \<open>old_timers self n\<close> counts the tracked timers created more than five minutes before
  the clock \<open>n\<close>, \<open>interval_timers\<close> the tracked repeating timers. \<open>set_intervals\<close> is a
  run of \<^verbatim>\<open>setInterval\<close> calls, each with the handle the host returned and the clock at
  the call; \<open>fresh_intervals\<close> is such a run of 25 calls with the handles 1 to 25.
\<close>

definition old_timers :: "TimerTracker \<Rightarrow> int \<Rightarrow> nat" where
  "old_timers self n = length (filter (\<lambda>(tid, timer). n - created timer > 5 * 60 * 1000) (timers self))"

definition interval_timers :: "TimerTracker \<Rightarrow> nat" where
  "interval_timers self = length (filter (\<lambda>(tid, timer). timer_type timer = Interval) (timers self))"

fun set_intervals :: "TimerTracker \<Rightarrow> (timer_id \<times> int) list \<Rightarrow> TimerTracker" where
  "set_intervals self [] = self"
| "set_intervals self ((tid, t) # acq) = set_intervals (setInterval self tid t) acq"

definition fresh_intervals :: "(timer_id \<times> int) list" where
  "fresh_intervals = map (\<lambda>i. (Suc i, 1000)) [0..<25]"

subsection \<open>Cleanup\<close>

text \<open>
  \<open>restored_globals self g\<close> is \<open>g\<close> with the entry points of the trackers present set to
  the functions those trackers saved at construction; \<open>restored_stores\<close> likewise for the
  \<^verbatim>\<open>subscribe\<close> property of the store the store tracker recorded. \<open>probe\<close> is the loop
  of \<^verbatim>\<open>detectStoreFromWindow\<close> over the slots of the window.
\<close>

definition restored_globals :: "MemoryLeakDetector \<Rightarrow> globals \<Rightarrow> globals" where
  "restored_globals self g0 =
     (let g = (case eventTracker self of
                 Some t \<Rightarrow> g0\<lparr>g_addEventListener := originalAddEventListener t,
                               g_removeEventListener := originalRemoveEventListener t\<rparr>
               | None \<Rightarrow> g0)
      in case timerTracker self of
           Some t \<Rightarrow> g\<lparr>g_setTimeout := originalSetTimeout t, g_setInterval := originalSetInterval t,
                       g_clearTimeout := originalClearTimeout t, g_clearInterval := originalClearInterval t\<rparr>
         | None \<Rightarrow> g)"

definition restore_subscribe :: "ReduxTracker \<Rightarrow> store_heap \<Rightarrow> store_heap" where
  "restore_subscribe t heap =
     (case (storeRef t, originalStoreSubscribe t) of
        (Some st, Some f) \<Rightarrow> heap(st := Some f)
      | _ \<Rightarrow> heap)"

definition restored_stores :: "MemoryLeakDetector \<Rightarrow> store_heap \<Rightarrow> store_heap" where
  "restored_stores self heap =
     (case reduxTracker self of Some t \<Rightarrow> restore_subscribe t heap | None \<Rightarrow> heap)"

definition probe :: "ReduxTracker \<Rightarrow> store_heap \<Rightarrow> store_id option list \<Rightarrow> ReduxTracker \<times> store_heap" where
  "probe t heap ps =
     (case find (\<lambda>store. case store of None \<Rightarrow> False | Some st \<Rightarrow> heap st \<noteq> None) ps of
        Some (Some st) \<Rightarrow> patchStore t heap st
      | _ \<Rightarrow> (t, heap))"

subsection \<open>The store tracker\<close>

text \<open>
  \<open>store_call\<close> is one call that reaches the store tracker. A call of
  \<^verbatim>\<open>store.subscribe\<close> runs the function the store holds at that moment: the tracker's
  wrapper when the property is the wrapper, the host's own function otherwise, which
  leaves the tracker as it is. \<open>only_recorded_store_wrapped\<close> says that a store whose
  \<^verbatim>\<open>subscribe\<close> is the wrapper is the store the tracker recorded. \<open>new_ReduxTracker\<close>
  is the constructor without the window it returns. \<open>one_store\<close> is a heap with the
  single store 1, and \<open>window_with_store\<close> a window that exposes it.
\<close>

datatype store_action =
    PatchStore store_id
  | DevToolsCreateStore store_id
  | Subscribe store_id listener nat int real int
  | Unsubscribe wrapped_unsubscribe
  | TrackSelectorUsage string int
  | Cleanup

fun store_call :: "ReduxTracker \<times> store_heap \<Rightarrow> store_action \<Rightarrow> ReduxTracker \<times> store_heap" where
  "store_call (t, heap) (PatchStore st) = patchStore t heap st"
| "store_call (t, heap) (DevToolsCreateStore st) = devToolsCreateStore t heap st"
| "store_call (t, heap) (Subscribe st l hostUnsubscribe nowId random nowCreated) =
     (if heap st = Some SubscribeShim
      then (case subscribe t l hostUnsubscribe nowId random nowCreated of
              Inr (t', u) \<Rightarrow> (t', heap)
            | Inl e \<Rightarrow> (t, heap))
      else (t, heap))"
| "store_call (t, heap) (Unsubscribe u) = (fst (call_unsubscribe t u), heap)"
| "store_call (t, heap) (TrackSelectorUsage selectorName n) = (trackSelectorUsage t selectorName n, heap)"
| "store_call (t, heap) Cleanup = ReduxTracker_cleanup t heap"

definition store_calls :: "ReduxTracker \<times> store_heap \<Rightarrow> store_action list \<Rightarrow> ReduxTracker \<times> store_heap" where
  "store_calls s cs = fold (\<lambda>c s. store_call s c) cs s"

definition new_ReduxTracker :: "window option \<Rightarrow> store_heap \<Rightarrow> ReduxTracker \<times> store_heap" where
  "new_ReduxTracker w heap = (case ReduxTracker_constructor w heap of (t, w', heap') \<Rightarrow> (t, heap'))"

definition only_recorded_store_wrapped :: "ReduxTracker \<times> store_heap \<Rightarrow> bool" where
  "only_recorded_store_wrapped s = (\<forall>st. snd s st = Some SubscribeShim \<longrightarrow> storeRef (fst s) = Some st)"

definition one_store :: store_heap where
  "one_store = (\<lambda>s. if s = 1 then Some (Host 7) else None)"

definition window_with_store :: window where
  "window_with_store =
     \<lparr>w_REDUX_STORE = Some 1, w_store = None, w_STORE = None, w_REDUX_DEVTOOLS_EXTENSION = None\<rparr>"

subsection \<open>A host with the DevTools extension\<close>

text \<open>
  \<open>extension_host\<close> has the Redux DevTools extension in its window and the store 1, which
  the window does not expose. \<open>cleaned_twice\<close> is the detector and the host after the
  detector was constructed there with the default configuration and \<^verbatim>\<open>cleanup\<close> was
  called twice.
\<close>

definition extension_host :: host where
  "extension_host =
     \<lparr>globals = globals0,
      window = Some \<lparr>w_REDUX_STORE = None, w_store = None, w_STORE = None,
                     w_REDUX_DEVTOOLS_EXTENSION = Some (Host 9)\<rparr>,
      stores = one_store,
      mutationObserverDefined = False\<rparr>"

definition cleaned_twice :: "MemoryLeakDetector \<times> host" where
  "cleaned_twice =
     (let c = MemoryLeakDetector_constructor default_config extension_host;
          x = cleanup (fst c) (snd c)
      in cleanup (fst x) (snd x))"

section \<open>The listener registry: counts and suspects\<close>

subsection \<open>Auxiliary facts\<close>

lemma fold_weight: "fold (\<lambda>(k, v) c. c + f v) m c = c + weight f m"
  by (induction m arbitrary: c) (auto simp: weight_def)

lemma weight_update:
  "weight f (AList.update k v m) + (case map_of m k of None \<Rightarrow> 0 | Some w \<Rightarrow> f w) = weight f m + f v"
  by (induction m) (auto simp: weight_def)

lemma weight_delete:
  "distinct (map fst m) \<Longrightarrow>
   weight f (AList.delete k m) + (case map_of m k of None \<Rightarrow> 0 | Some w \<Rightarrow> f w) = weight f m"
proof (induction m)
  case Nil
  then show ?case by (simp add: weight_def)
next
  case (Cons p m)
  obtain k' v' where p: "p = (k', v')" by (cases p)
  show ?case
  proof (cases "k' = k")
    case True
    with Cons.prems p have "map_of m k = None"
      by (simp add: map_of_eq_None_iff)
    moreover from this have "AList.delete k m = m"
      by (simp add: map_of_eq_None_iff)
    ultimately show ?thesis using True p by (simp add: weight_def)
  next
    case False
    with Cons p show ?thesis by (simp add: weight_def)
  qed
qed

lemma getActiveListeners_weight:
  "getActiveListeners self = weight (weight length) (listeners self)"
proof -
  have "(\<lambda>(target::target, ls::(string, listener js_set) js_map) count::nat. fold (\<lambda>(ty, listenerSet) count. count + set_size listenerSet) ls count)
       = (\<lambda>(target, ls) count. count + weight length ls)"
    by (auto simp: fun_eq_iff fold_weight set_size_def)
  then show ?thesis
    by (simp add: getActiveListeners_def fold_weight)
qed

lemma list_all_update:
  "list_all P m \<Longrightarrow> P (k, v) \<Longrightarrow> list_all P (AList.update k v m)"
  by (induction m) auto

lemma list_all_delete:
  "list_all P m \<Longrightarrow> list_all P (AList.delete k m)"
  by (induction m) auto

lemma list_all_map_of:
  "list_all P m \<Longrightarrow> map_of m k = Some v \<Longrightarrow> P (k, v)"
  by (induction m) (auto split: if_splits)

lemma addEventListener_listeners:
  "listeners (addEventListener self t ty l) =
     (let m = (case map_of (listeners self) t of Some m \<Rightarrow> m | None \<Rightarrow> []);
          s = (case map_of m ty of Some s \<Rightarrow> s | None \<Rightarrow> [])
      in AList.update t (AList.update ty (set_add s l) m) (listeners self))"
  by (auto simp: addEventListener_def map_has_def map_get_def map_set_def Let_def update_conv'
           split: option.splits)

lemma removeEventListener_listeners:
  "listeners (removeEventListener self t ty l) =
     (case map_of (listeners self) t of
        None \<Rightarrow> listeners self
      | Some m \<Rightarrow>
          (case map_of m ty of
             None \<Rightarrow> listeners self
           | Some s \<Rightarrow>
               (let m1 = AList.update ty (removeAll l s) m;
                    m2 = (if removeAll l s = [] then AList.delete ty m1 else m1);
                    ls1 = AList.update t m2 (listeners self)
                in if m2 = [] then AList.delete t ls1 else ls1)))"
  by (auto simp: removeEventListener_def map_get_def map_set_def map_delete_def set_delete_def
                 set_size_def map_size_def Let_def split: option.splits)


lemma tracked_iff:
  "tracked self t ty l =
    (\<exists>m s. map_of (listeners self) t = Some m \<and> map_of m ty = Some s \<and> l \<in> set s)"
  by (auto simp: tracked_def map_get_def set_has_def split: option.splits)

lemma addEventListener_count:
  "getActiveListeners (addEventListener self t ty l) =
     getActiveListeners self + (if tracked self t ty l then 0 else 1)"
proof -
  define m where "m = (case map_of (listeners self) t of Some m \<Rightarrow> m | None \<Rightarrow> [])"
  define s where "s = (case map_of m ty of Some s \<Rightarrow> s | None \<Rightarrow> [])"
  define m' where "m' = AList.update ty (set_add s l) m"
  have new: "listeners (addEventListener self t ty l) = AList.update t m' (listeners self)"
    by (simp add: addEventListener_listeners m_def s_def m'_def Let_def)
  have outer: "weight (weight length) (AList.update t m' (listeners self)) + weight length m
       = weight (weight length) (listeners self) + weight length m'"
    using weight_update [of "weight length" t m' "listeners self"]
    by (simp add: m_def weight_def split: option.splits)
  have inner: "weight length m' + length s = weight length m + length (set_add s l)"
    using weight_update [of length ty "set_add s l" m]
    by (simp add: m'_def s_def split: option.splits)
  have tr: "tracked self t ty l \<longleftrightarrow> l \<in> set s"
    by (cases "map_of (listeners self) t"; cases "map_of m ty")
       (auto simp: tracked_iff s_def m_def)
  have "length (set_add s l) = length s + (if l \<in> set s then 0 else 1)"
    by (simp add: set_add_def)
  with outer inner tr new show ?thesis
    by (simp add: getActiveListeners_weight)
qed

lemma addEventListener_ok:
  assumes "registry_ok (listeners self)"
  shows "registry_ok (listeners (addEventListener self t ty l))"
proof -
  define m where "m = (case map_of (listeners self) t of Some m \<Rightarrow> m | None \<Rightarrow> [])"
  define s where "s = (case map_of m ty of Some s \<Rightarrow> s | None \<Rightarrow> [])"
  define m' where "m' = AList.update ty (set_add s l) m"
  have new: "listeners (addEventListener self t ty l) = AList.update t m' (listeners self)"
    by (simp add: addEventListener_listeners m_def s_def m'_def Let_def)
  have m_ok: "inner_ok m"
    using assms list_all_map_of [of _ "listeners self" t]
    by (auto simp: m_def registry_ok_def inner_ok_def split: option.splits)
  have s_ok: "distinct s"
    using m_ok list_all_map_of [of _ m ty]
    by (auto simp: s_def inner_ok_def split: option.splits)
  have "set_add s l \<noteq> [] \<and> distinct (set_add s l)"
    using s_ok by (auto simp: set_add_def)
  with m_ok have "inner_ok m'"
    by (simp add: inner_ok_def m'_def distinct_update list_all_update)
  moreover have "m' \<noteq> []" by (simp add: m'_def)
  ultimately show ?thesis
    using assms by (simp add: new registry_ok_def distinct_update list_all_update)
qed


lemma length_removeAll_distinct:
  "distinct s \<Longrightarrow> length (removeAll l s) + (if l \<in> set s then 1 else 0) = length s"
  by (induction s) auto

lemma weight_Nil: "weight f [] = 0"
  by (simp add: weight_def)

lemma removeEventListener_count:
  assumes "registry_ok (listeners self)"
  shows "getActiveListeners (removeEventListener self t ty l) + (if tracked self t ty l then 1 else 0)
           = getActiveListeners self"
proof (cases "map_of (listeners self) t")
  case None
  then show ?thesis
    by (simp add: getActiveListeners_weight removeEventListener_listeners tracked_iff)
next
  case (Some m)
  note m = this
  have m_ok: "inner_ok m"
    using assms list_all_map_of [OF _ m] by (auto simp: registry_ok_def)
  show ?thesis
  proof (cases "map_of m ty")
    case None
    with m show ?thesis
      by (simp add: getActiveListeners_weight removeEventListener_listeners tracked_iff)
  next
    case (Some s)
    note s = this
    have s_ok: "distinct s"
      using m_ok list_all_map_of [OF _ s] by (auto simp: inner_ok_def)
    define s' where "s' = removeAll l s"
    define m1 where "m1 = AList.update ty s' m"
    define m2 where "m2 = (if s' = [] then AList.delete ty m1 else m1)"
    define ls1 where "ls1 = AList.update t m2 (listeners self)"
    define ls2 where "ls2 = (if m2 = [] then AList.delete t ls1 else ls1)"
    have new: "listeners (removeEventListener self t ty l) = ls2"
      by (simp add: removeEventListener_listeners m s s'_def m1_def m2_def ls1_def ls2_def Let_def)
    have len: "length s' + (if l \<in> set s then 1 else 0) = length s"
      unfolding s'_def by (rule length_removeAll_distinct [OF s_ok])
    have w1: "weight length m1 + length s = weight length m + length s'"
      using weight_update [of length ty s' m] s by (simp add: m1_def)
    have d1: "distinct (map fst m1)"
      using m_ok by (simp add: m1_def inner_ok_def distinct_update)
    have w2: "weight length m2 = weight length m1"
    proof (cases "s' = []")
      case True
      have "map_of m1 ty = Some s'" by (simp add: m1_def update_conv')
      with weight_delete [OF d1, of length ty] True show ?thesis
        by (simp add: m2_def)
    next
      case False
      then show ?thesis by (simp add: m2_def)
    qed
    have w3: "weight (weight length) ls1 + weight length m
                = weight (weight length) (listeners self) + weight length m2"
      using weight_update [of "weight length" t m2 "listeners self"] m by (simp add: ls1_def)
    have d2: "distinct (map fst ls1)"
      using assms by (simp add: ls1_def registry_ok_def distinct_update)
    have w4: "weight (weight length) ls2 = weight (weight length) ls1"
    proof (cases "m2 = []")
      case True
      have "map_of ls1 t = Some m2" by (simp add: ls1_def update_conv')
      with weight_delete [OF d2, of "weight length" t] True show ?thesis
        by (simp add: ls2_def weight_Nil)
    next
      case False
      then show ?thesis by (simp add: ls2_def)
    qed
    have tr: "tracked self t ty l \<longleftrightarrow> l \<in> set s"
      by (simp add: tracked_iff m s)
    from len w1 w2 w3 w4 tr new show ?thesis
      by (simp add: getActiveListeners_weight split: if_splits)
  qed
qed

lemma removeEventListener_ok:
  assumes "registry_ok (listeners self)"
  shows "registry_ok (listeners (removeEventListener self t ty l))"
proof (cases "map_of (listeners self) t")
  case None
  with assms show ?thesis by (simp add: removeEventListener_listeners)
next
  case (Some m)
  note m = this
  have m_ok: "inner_ok m"
    using assms list_all_map_of [OF _ m] by (auto simp: registry_ok_def)
  show ?thesis
  proof (cases "map_of m ty")
    case None
    with m assms show ?thesis by (simp add: removeEventListener_listeners)
  next
    case (Some s)
    note s = this
    have s_ok: "distinct s"
      using m_ok list_all_map_of [OF _ s] by (auto simp: inner_ok_def)
    define s' where "s' = removeAll l s"
    define m1 where "m1 = AList.update ty s' m"
    define m2 where "m2 = (if s' = [] then AList.delete ty m1 else m1)"
    define ls1 where "ls1 = AList.update t m2 (listeners self)"
    define ls2 where "ls2 = (if m2 = [] then AList.delete t ls1 else ls1)"
    have new: "listeners (removeEventListener self t ty l) = ls2"
      by (simp add: removeEventListener_listeners m s s'_def m1_def m2_def ls1_def ls2_def Let_def)
    have "distinct s'" using s_ok by (simp add: s'_def distinct_removeAll)
    then have m2_ok: "inner_ok m2"
      using m_ok
      by (auto simp: m2_def m1_def inner_ok_def distinct_update distinct_delete delete_update_same
                     list_all_update list_all_delete)
    have "registry_ok ls2"
      using assms m2_ok
      by (auto simp: ls2_def ls1_def registry_ok_def distinct_update distinct_delete
                     delete_update_same list_all_update list_all_delete)
    with new show ?thesis by simp
  qed
qed

lemma removeEventListener_untracked:
  assumes "registry_ok (listeners self)" and "\<not> tracked self t ty l"
  shows "removeEventListener self t ty l = self"
proof (cases "map_of (listeners self) t")
  case None
  then show ?thesis by (simp add: removeEventListener_def map_get_def)
next
  case (Some m)
  note m = this
  have m_ok: "m \<noteq> [] \<and> inner_ok m"
    using assms(1) list_all_map_of [OF _ m] by (auto simp: registry_ok_def)
  show ?thesis
  proof (cases "map_of m ty")
    case None
    with m show ?thesis by (simp add: removeEventListener_def map_get_def)
  next
    case (Some s)
    note s = this
    have s_ok: "s \<noteq> []"
      using m_ok list_all_map_of [OF _ s] by (auto simp: inner_ok_def)
    have "l \<notin> set s" using assms(2) by (simp add: tracked_iff m s)
    with m s s_ok m_ok show ?thesis
      by (simp add: removeEventListener_def map_get_def map_set_def set_delete_def set_size_def
                    map_size_def update_triv)
  qed
qed


lemma listener_calls_ok:
  "registry_ok (listeners self) \<Longrightarrow> registry_ok (listeners (listener_calls self cs))"
  by (induction self cs rule: listener_calls.induct)
     (simp_all add: addEventListener_ok removeEventListener_ok)

lemma listener_calls_count:
  "registry_ok (listeners self) \<Longrightarrow>
   getActiveListeners (listener_calls self cs) + matched_releases self cs
     = getActiveListeners self + new_acquires self cs"
proof (induction self cs rule: listener_calls.induct)
  case (1 self)
  then show ?case by simp
next
  case (2 self t ty l cs)
  from 2 addEventListener_ok [of self t ty l] addEventListener_count [of self t ty l]
  show ?case by simp
next
  case (3 self t ty l cs)
  from 3 removeEventListener_ok [of self t ty l] removeEventListener_count [of self t ty l]
  show ?case by (simp split: if_splits)
qed

lemma new_acquires_le: "new_acquires self cs \<le> acquires cs"
  by (induction self cs rule: new_acquires.induct) auto

lemma constructor_ok: "registry_ok (listeners (fst (EventListenerTracker_constructor g)))"
  by (simp add: EventListenerTracker_constructor_def registry_ok_def)

lemma detectLeaks_fold:
  "fold (\<lambda>(target, ls) suspects.
            (let totalListeners = fold (\<lambda>(ty, listenerSet) total. total + set_size listenerSet) ls 0
             in if totalListeners > 50
                then suspects @ [\<lparr>type = EventListener,
                                  severity = (if totalListeners > 100 then Critical else High),
                                  description = ListenersAttached totalListeners target,
                                  count = int totalListeners\<rparr>]
                else suspects)) xs acc
   = acc @ map (\<lambda>(t, m). listener_suspect t (weight length m))
             (filter (\<lambda>(t, m). weight length m > 50) xs)"
  by (induction xs arbitrary: acc)
     (auto simp: fold_weight set_size_def listener_suspect_def Let_def)

lemma target_count_entry:
  "distinct (map fst xs) \<Longrightarrow> (t, m) \<in> set xs \<Longrightarrow> map_of xs t = Some m"
  by simp

lemma detectLeaks_targets:
  assumes "distinct (map fst (listeners self))"
  shows "EventListenerTracker_detectLeaks self =
          map (\<lambda>t. listener_suspect t (target_count self t))
            (filter (\<lambda>t. target_count self t > 50) (map fst (listeners self)))"
proof -
  have tc: "target_count self t = weight length m" if "(t, m) \<in> set (listeners self)" for t m
    using assms that by (simp add: target_count_def map_get_def weight_def set_size_def [abs_def])
  have "map (\<lambda>(t, m). listener_suspect t (weight length m))
             (filter (\<lambda>(t, m). weight length m > 50) (listeners self))
      = map (\<lambda>(t, m). listener_suspect t (target_count self t))
             (filter (\<lambda>(t, m). target_count self t > 50) (listeners self))"
  proof -
    have "filter (\<lambda>(t, m). weight length m > 50) (listeners self)
        = filter (\<lambda>(t, m). target_count self t > 50) (listeners self)"
      by (rule filter_cong) (auto simp: tc)
    moreover have "map (\<lambda>(t, m). listener_suspect t (weight length m))
             (filter (\<lambda>(t, m). target_count self t > 50) (listeners self))
      = map (\<lambda>(t, m). listener_suspect t (target_count self t))
             (filter (\<lambda>(t, m). target_count self t > 50) (listeners self))"
      by (rule map_cong) (auto simp: tc)
    ultimately show ?thesis by simp
  qed
  also have "\<dots> = map (\<lambda>t. listener_suspect t (target_count self t))
            (filter (\<lambda>t. target_count self t > 50) (map fst (listeners self)))"
    by (simp add: filter_map comp_def case_prod_unfold)
  finally show ?thesis
    by (simp add: EventListenerTracker_detectLeaks_def detectLeaks_fold)
qed


lemma set_size_eq: "set_size = length"
  by (simp add: fun_eq_iff set_size_def)

lemma key_le_target: "key_count self t ty \<le> target_count self t"
proof (cases "map_of (listeners self) t")
  case None
  then show ?thesis by (simp add: key_count_def target_count_def map_get_def)
next
  case (Some m)
  have "(case map_of m ty of None \<Rightarrow> 0 | Some s \<Rightarrow> length s) \<le> sum_list (map (\<lambda>(ty, s). length s) m)"
    by (induction m) (auto split: option.splits)
  with Some show ?thesis
    by (simp add: key_count_def target_count_def map_get_def set_size_eq split: option.splits)
qed

subsection \<open>Claims\<close>

text \<open>
  C1, as amended. For every sequence of \<^verbatim>\<open>addEventListener\<close> and
  \<^verbatim>\<open>removeEventListener\<close> calls on a new tracker, \<^verbatim>\<open>getActiveListeners()\<close> is the
  number of acquires of a handle that is not tracked when the call arrives, minus the
  number of matched releases; the difference is never negative, the acquires counted
  are at most all acquires, and a release of a handle that is not tracked leaves the
  tracker as it is.
\<close>

theorem getActiveListeners_balance:
  "let self0 = fst (EventListenerTracker_constructor g);
       self = listener_calls self0 cs
   in int (getActiveListeners self) = int (new_acquires self0 cs) - int (matched_releases self0 cs)
    \<and> matched_releases self0 cs \<le> new_acquires self0 cs
    \<and> new_acquires self0 cs \<le> acquires cs
    \<and> (\<forall>t ty l. \<not> tracked self t ty l \<longrightarrow> removeEventListener self t ty l = self)"
proof -
  define self0 where "self0 = fst (EventListenerTracker_constructor g)"
  define self where "self = listener_calls self0 cs"
  have ok0: "registry_ok (listeners self0)"
    unfolding self0_def by (rule constructor_ok)
  have ok: "registry_ok (listeners self)"
    unfolding self_def by (rule listener_calls_ok [OF ok0])
  have "getActiveListeners self0 = 0"
    by (simp add: self0_def EventListenerTracker_constructor_def getActiveListeners_def)
  with listener_calls_count [OF ok0, of cs]
  have eq: "getActiveListeners self + matched_releases self0 cs = new_acquires self0 cs"
    by (simp add: self_def)
  have "int (getActiveListeners self) = int (new_acquires self0 cs) - int (matched_releases self0 cs)"
    using eq by linarith
  moreover have "matched_releases self0 cs \<le> new_acquires self0 cs"
    using eq by linarith
  moreover have "\<forall>t ty l. \<not> tracked self t ty l \<longrightarrow> removeEventListener self t ty l = self"
    using removeEventListener_untracked [OF ok] by blast
  ultimately show ?thesis
    using new_acquires_le [of self0 cs] by (simp add: self0_def self_def Let_def)
qed


theorem getActiveListeners_balance_witness:
  "int (getActiveListeners (listener_calls (fst (EventListenerTracker_constructor globals0))
          [AddCall 1 ''click'' 7, AddCall 1 ''click'' 7, AddCall 1 ''click'' 8,
           RemoveCall 1 ''click'' 9, RemoveCall 1 ''click'' 7]))
     = int (new_acquires (fst (EventListenerTracker_constructor globals0))
          [AddCall 1 ''click'' 7, AddCall 1 ''click'' 7, AddCall 1 ''click'' 8,
           RemoveCall 1 ''click'' 9, RemoveCall 1 ''click'' 7])
       - int (matched_releases (fst (EventListenerTracker_constructor globals0))
          [AddCall 1 ''click'' 7, AddCall 1 ''click'' 7, AddCall 1 ''click'' 8,
           RemoveCall 1 ''click'' 9, RemoveCall 1 ''click'' 7])
   \<and> \<not> tracked (listener_calls (fst (EventListenerTracker_constructor globals0))
          [AddCall 1 ''click'' 7, AddCall 1 ''click'' 7, AddCall 1 ''click'' 8,
           RemoveCall 1 ''click'' 9, RemoveCall 1 ''click'' 7]) 1 ''click'' 9
   \<and> removeEventListener (listener_calls (fst (EventListenerTracker_constructor globals0))
          [AddCall 1 ''click'' 7, AddCall 1 ''click'' 7, AddCall 1 ''click'' 8,
           RemoveCall 1 ''click'' 9, RemoveCall 1 ''click'' 7]) 1 ''click'' 9
       = listener_calls (fst (EventListenerTracker_constructor globals0))
          [AddCall 1 ''click'' 7, AddCall 1 ''click'' 7, AddCall 1 ''click'' 8,
           RemoveCall 1 ''click'' 9, RemoveCall 1 ''click'' 7]"
proof -
  have "\<not> tracked (listener_calls (fst (EventListenerTracker_constructor globals0))
          [AddCall 1 ''click'' 7, AddCall 1 ''click'' 7, AddCall 1 ''click'' 8,
           RemoveCall 1 ''click'' 9, RemoveCall 1 ''click'' 7]) 1 ''click'' 9"
    by code_simp
  with getActiveListeners_balance [of globals0
          "[AddCall 1 ''click'' 7, AddCall 1 ''click'' 7, AddCall 1 ''click'' 8,
           RemoveCall 1 ''click'' 9, RemoveCall 1 ''click'' 7]"]
  show ?thesis unfolding Let_def by blast
qed

text \<open>
  C1 as stated fails: the same listener added twice under one key is two acquires and no
  release, and the registry counts it once.
\<close>

theorem getActiveListeners_repeated_acquire:
  "int (getActiveListeners (listener_calls (fst (EventListenerTracker_constructor globals0))
          [AddCall 1 ''click'' 7, AddCall 1 ''click'' 7]))
     \<noteq> int (acquires [AddCall 1 ''click'' 7, AddCall 1 ''click'' 7])
        - int (matched_releases (fst (EventListenerTracker_constructor globals0))
                 [AddCall 1 ''click'' 7, AddCall 1 ''click'' 7])"
  by code_simp



text \<open>
  C2, as amended. \<^verbatim>\<open>detectLeaks\<close> of the listener tracker emits one suspect per
  target, in the order of the registry, exactly for the targets whose listeners summed
  over all event kinds exceed 50; the suspect carries that sum, and its severity is
  critical if and only if the sum exceeds 100 and high otherwise. A key's count is at
  most its target's sum.
\<close>

theorem listener_suspects_per_target:
  "let self = listener_calls (fst (EventListenerTracker_constructor g)) cs
   in EventListenerTracker_detectLeaks self =
        map (\<lambda>t. listener_suspect t (target_count self t))
          (filter (\<lambda>t. target_count self t > 50) (map fst (listeners self)))
    \<and> distinct (map fst (listeners self))
    \<and> ((\<exists>x \<in> set (EventListenerTracker_detectLeaks self). \<exists>n. description x = ListenersAttached n t)
          \<longleftrightarrow> 50 < target_count self t)
    \<and> key_count self t ty \<le> target_count self t"
proof -
  define self where "self = listener_calls (fst (EventListenerTracker_constructor g)) cs"
  have ok: "registry_ok (listeners self)"
    unfolding self_def by (rule listener_calls_ok [OF constructor_ok])
  then have d: "distinct (map fst (listeners self))"
    by (simp add: registry_ok_def)
  note eq = detectLeaks_targets [OF d]
  have present: "t \<in> set (map fst (listeners self))" if "50 < target_count self t"
  proof (rule ccontr)
    assume "t \<notin> set (map fst (listeners self))"
    then have "map_of (listeners self) t = None"
      by (simp add: map_of_eq_None_iff)
    with that show False by (simp add: target_count_def map_get_def)
  qed
  have "(\<exists>x \<in> set (EventListenerTracker_detectLeaks self). \<exists>n. description x = ListenersAttached n t)
          \<longleftrightarrow> 50 < target_count self t"
    unfolding eq using present by (auto simp: listener_suspect_def)
  with eq d key_le_target [of self t ty] show ?thesis
    unfolding self_def [symmetric] Let_def by blast
qed


theorem listener_suspects_per_target_witness:
  "EventListenerTracker_detectLeaks (listener_calls (fst (EventListenerTracker_constructor globals0)) two_kinds) =
        map (\<lambda>t. listener_suspect t (target_count (listener_calls (fst (EventListenerTracker_constructor globals0)) two_kinds) t))
          (filter (\<lambda>t. target_count (listener_calls (fst (EventListenerTracker_constructor globals0)) two_kinds) t > 50)
             (map fst (listeners (listener_calls (fst (EventListenerTracker_constructor globals0)) two_kinds))))
   \<and> key_count (listener_calls (fst (EventListenerTracker_constructor globals0)) two_kinds) 0 ''click''
       \<le> target_count (listener_calls (fst (EventListenerTracker_constructor globals0)) two_kinds) 0"
  using listener_suspects_per_target [of globals0 two_kinds 0 "''click''"]
  unfolding Let_def by blast

text \<open>
  C2 as stated fails: with 26 listeners for one event kind and 25 for another on the same
  target, no key exceeds 50 and a suspect is emitted, for the 51 listeners of the target.
\<close>

theorem listener_suspect_two_kinds:
  "key_count (listener_calls (fst (EventListenerTracker_constructor globals0)) two_kinds) 0 ''click'' = 26
 \<and> key_count (listener_calls (fst (EventListenerTracker_constructor globals0)) two_kinds) 0 ''keydown'' = 25
 \<and> EventListenerTracker_detectLeaks (listener_calls (fst (EventListenerTracker_constructor globals0)) two_kinds)
     = [\<lparr>type = EventListener, severity = High, description = ListenersAttached 51 0, count = 51\<rparr>]"
  by code_simp

section \<open>The detector: history, growth rule, report and recommendations\<close>

subsection \<open>Auxiliary facts\<close>

lemma init_snapshots: "snapshots (fst (init cfg h)) = []"
  by (simp add: init_def Let_def split_def)

lemma takeSnapshot_snd:
  "snd (takeSnapshot self r) = self\<lparr>snapshots := last_n 100 (snapshots self @ [fst (takeSnapshot self r)])\<rparr>"
  by (simp add: takeSnapshot_def Let_def last_n_def)


lemma takeSnapshot_fst_snapshots:
  "fst (takeSnapshot (self\<lparr>snapshots := xs\<rparr>) r) = fst (takeSnapshot self r)"
  by (simp add: takeSnapshot_def Let_def)


lemma last_n_append1: "last_n n (last_n n xs @ [y]) = last_n n (xs @ [y])"
proof (cases "length xs \<le> n")
  case True
  then show ?thesis by (simp add: last_n_def)
next
  case False
  then have "length xs - n + n = length xs" by simp
  with False show ?thesis
    by (cases "n = 0") (simp_all add: last_n_def Suc_diff_le)
qed


lemma last_n_length: "length (last_n n xs) \<le> n"
  by (simp add: last_n_def)


lemma take_snapshots_history:
  "take_snapshots (self\<lparr>snapshots := last_n 100 xs\<rparr>) rs
     = self\<lparr>snapshots := last_n 100 (xs @ map (\<lambda>r. fst (takeSnapshot self r)) rs)\<rparr>"
proof (induction rs arbitrary: xs)
  case Nil
  then show ?case by (simp add: take_snapshots_def)
next
  case (Cons r rs)
  have "snd (takeSnapshot (self\<lparr>snapshots := last_n 100 xs\<rparr>) r)
          = self\<lparr>snapshots := last_n 100 (xs @ [fst (takeSnapshot self r)])\<rparr>"
    by (simp add: takeSnapshot_snd takeSnapshot_fst_snapshots last_n_append1)
  with Cons.IH [of "xs @ [fst (takeSnapshot self r)]"] show ?case
    by (simp add: take_snapshots_def)
qed


lemma last_two_nth:
  assumes "2 \<le> length xs"
  shows "xs ! (length xs - 1) = last xs" and "xs ! (length xs - 2) = last (butlast xs)"
proof -
  have "butlast xs \<noteq> []"
  proof
    assume "butlast xs = []"
    then have "length (butlast xs) = 0" by (simp only: list.size)
    with assms show False by simp
  qed
  with assms have ne: "xs \<noteq> []" "butlast xs \<noteq> []" by auto
  show "xs ! (length xs - 1) = last xs"
    using ne by (simp add: last_conv_nth)
  have "last (butlast xs) = butlast xs ! (length (butlast xs) - 1)"
    using ne by (simp add: last_conv_nth)
  also have "\<dots> = xs ! (length xs - 2)"
    using assms by (simp add: nth_butlast numeral_2_eq_2)
  finally show "xs ! (length xs - 2) = last (butlast xs)" by simp
qed


lemma growthMB_gt:
  "(real_of_int d / (1024 * 1024) > real_of_int k) = (d > k * MB)"
proof -
  have "(real_of_int d / (1024 * 1024) > real_of_int k) = (real_of_int d > real_of_int k * (1024 * 1024))"
    by (simp add: pos_less_divide_eq)
  also have "\<dots> = (real_of_int d > real_of_int (k * MB))"
    by (simp add: MB_def)
  also have "\<dots> = (d > k * MB)"
    by (simp only: of_int_less_iff)
  finally show ?thesis .
qed


lemma Math_round_MB:
  "Math_round (real_of_int d / (1024 * 1024)) = (d + MB div 2) div MB"
proof -
  have h: "real_of_int d / (1024 * 1024) + 1 / 2 = real_of_int (d + 524288) / real_of_int 1048576"
    by (simp add: field_simps)
  have "Math_round (real_of_int d / (1024 * 1024)) = \<lfloor>real_of_int (d + 524288) / real_of_int 1048576\<rfloor>"
    by (simp only: Math_round_def h)
  also have "\<dots> = (d + 524288) div 1048576"
    by (rule floor_divide_of_int_eq)
  finally show ?thesis by (simp add: MB_def)
qed


lemma detectLeaks_split:
  "detectLeaks self r = tracker_suspects self r @ growth_suspects self r"
  by (simp add: detectLeaks_def growth_suspects_def tracker_suspects_def Let_def
           split: option.splits)


lemma growth_suspects_eq:
  "growth_suspects self r =
     (if 2 \<le> length (snapshots self) \<and> 10 * MB < heap_increase (snapshots self)
      then [\<lparr>type = Closure,
             severity = (if 50 * MB < heap_increase (snapshots self) then Critical else High),
             description = MemoryIncreased (real_of_int (heap_increase (snapshots self)) / (1024 * 1024))
                                           (real_of_int (cfg_reportInterval (config self)) / 1000),
             count = Math_round (real_of_int (heap_increase (snapshots self)) / (1024 * 1024))\<rparr>]
      else [])"
proof (cases "2 \<le> length (snapshots self)")
  case False
  then show ?thesis by (simp add: growth_suspects_def detectLeaks_def)
next
  case True
  note nth = last_two_nth [OF True]
  define d where "d = heapUsed (memory (snapshots self ! (length (snapshots self) - 1)))
           - heapUsed (memory (snapshots self ! (length (snapshots self) - 2)))"
  have step: "growth_suspects self r =
     (if real_of_int d / (1024 * 1024) > 10
      then [\<lparr>type = Closure,
             severity = (if real_of_int d / (1024 * 1024) > 50 then Critical else High),
             description = MemoryIncreased (real_of_int d / (1024 * 1024))
                                           (real_of_int (cfg_reportInterval (config self)) / 1000),
             count = Math_round (real_of_int d / (1024 * 1024))\<rparr>]
      else [])"
    using True unfolding d_def by (simp add: growth_suspects_def detectLeaks_def Let_def)
  have d_eq: "d = heap_increase (snapshots self)"
    by (simp only: nth heap_increase_def d_def)
  have g10: "(real_of_int (heap_increase (snapshots self)) / (1024 * 1024) > 10)
              = (10 * MB < heap_increase (snapshots self))"
    using growthMB_gt [of 10 "heap_increase (snapshots self)"] by simp
  have g50: "(real_of_int (heap_increase (snapshots self)) / (1024 * 1024) > 50)
              = (50 * MB < heap_increase (snapshots self))"
    using growthMB_gt [of 50 "heap_increase (snapshots self)"] by simp
  show ?thesis
    using True by (simp only: step d_eq g10 g50 simp_thms if_True)
qed



lemma fold_all:
  assumes "\<forall>y \<in> set acc. Q y"
    and "\<And>a acc. \<forall>y \<in> set acc. Q y \<Longrightarrow> \<forall>y \<in> set (f a acc). Q y"
  shows "\<forall>y \<in> set (fold f xs acc). Q y"
  using assms(1)
proof (induction xs arbitrary: acc)
  case Nil
  then show ?case by simp
next
  case (Cons a xs)
  from Cons.prems have "\<forall>y \<in> set (f a acc). Q y" by (rule assms(2))
  then show ?case by (simp add: Cons.IH)
qed


lemma tracker_suspects_not_growth:
  "x \<in> set (tracker_suspects self r) \<Longrightarrow> type x \<noteq> Closure"
proof -
  have e: "\<forall>x \<in> set (EventListenerTracker_detectLeaks t). type x \<noteq> Closure" for t
    by (auto simp: EventListenerTracker_detectLeaks_def detectLeaks_fold listener_suspect_def)
  have t: "\<forall>x \<in> set (TimerTracker_detectLeaks t n). type x \<noteq> Closure" for t n
    by (auto simp: TimerTracker_detectLeaks_def Let_def split: prod.splits)
  have d: "\<forall>x \<in> set (DOMTracker_detectLeaks t n). type x \<noteq> Closure" for t n
    by (auto simp: DOMTracker_detectLeaks_def Let_def)
  have x: "\<forall>x \<in> set (ReduxTracker_detectLeaks t n). type x \<noteq> Closure" for t n
    unfolding ReduxTracker_detectLeaks_def Let_def
    by (rule fold_all) (auto split: if_splits)
  assume "x \<in> set (tracker_suspects self r)"
  with e t d x show ?thesis
    by (auto simp: tracker_suspects_def split: option.splits)
qed


lemma growth_suspects_type:
  "x \<in> set (growth_suspects self r) \<Longrightarrow> type x = Closure"
  by (simp add: growth_suspects_eq split: if_splits)


lemma detectLeaks_growth_part:
  "filter (\<lambda>x. type x = Closure) (detectLeaks self r) = growth_suspects self r"
proof -
  have "filter (\<lambda>x. type x = Closure) (tracker_suspects self r) = []"
    using tracker_suspects_not_growth [of _ self r] by (auto simp: filter_empty_conv)
  moreover have "filter (\<lambda>x. type x = Closure) (growth_suspects self r) = growth_suspects self r"
    using growth_suspects_type [of _ self r] by (auto simp: filter_id_conv)
  ultimately show ?thesis by (simp add: detectLeaks_split)
qed


lemma fold_OnLeak:
  "fold (\<lambda>suspect calls. calls @ [OnLeak suspect]) suspects acc = acc @ map OnLeak suspects"
  by (induction suspects arbitrary: acc) auto


lemma tracker_suspects_takeSnapshot:
  "tracker_suspects (snd (takeSnapshot self r)) r' = tracker_suspects self r'"
  by (simp add: takeSnapshot_snd tracker_suspects_def)


lemma inj_recommendation: "inj recommendation"
proof (rule injI)
  fix x y
  assume "recommendation x = recommendation y"
  then show "x = y"
    by (cases x; cases y; simp add: recommendation_def)
qed


lemma recommendations_pushed:
  "fold (\<lambda>suspect recommendations.
                    (case type suspect of
                       EventListener \<Rightarrow> recommendations @ [''Remove event listeners when components unmount or are no longer needed'']
                     | Timer \<Rightarrow> recommendations @ [''Clear intervals and timeouts when they are no longer needed'']
                     | DomReference \<Rightarrow> recommendations @ [''Avoid keeping references to DOM elements after they are removed'']
                     | DetachedDom \<Rightarrow> recommendations @ [''Check for detached DOM nodes that should be garbage collected'']
                     | Closure \<Rightarrow> recommendations @ [''Review closures that might be holding references to large objects'']
                     | ReduxSubscription \<Rightarrow> recommendations @ [''Ensure Redux store subscriptions are properly unsubscribed when components unmount'']
                     | ReduxSelector \<Rightarrow> recommendations @ [''Check for infinite re-renders caused by improperly memoized selectors'']))
              suspects acc
   = acc @ map (\<lambda>s. recommendation (type s)) suspects"
proof (induction suspects arbitrary: acc)
  case Nil
  then show ?case by simp
next
  case (Cons a suspects)
  show ?case
    by (cases "type a") (simp_all add: Cons.IH recommendation_def)
qed


lemma fold_set_add_map:
  assumes "inj f"
  shows "fold (\<lambda>x s. set_add s x) (map f xs) (map f acc) = map f (fold (\<lambda>x s. set_add s x) xs acc)"
proof (induction xs arbitrary: acc)
  case Nil
  then show ?case by simp
next
  case (Cons a xs)
  have "set_add (map f acc) (f a) = map f (set_add acc a)"
    using assms by (auto simp: set_add_def inj_def)
  then show ?case by (simp add: Cons.IH)
qed


lemma fold_set_add_distinct:
  "distinct acc \<Longrightarrow> distinct (fold (\<lambda>x s. set_add s x) xs acc)"
  by (induction xs arbitrary: acc) (auto simp: set_add_def)


lemma fold_set_add_set:
  "set (fold (\<lambda>x s. set_add s x) xs acc) = set acc \<union> set xs"
  by (induction xs arbitrary: acc) (auto simp: set_add_def)


lemma generateRecommendations_eq:
  "generateRecommendations suspects = map recommendation (first_occurrences (map type suspects))"
proof -
  have "generateRecommendations suspects
          = fold (\<lambda>r s. set_add s r) (map recommendation (map type suspects)) (map recommendation [])"
    by (simp add: generateRecommendations_def recommendations_pushed comp_def)
  also have "\<dots> = map recommendation (fold (\<lambda>x s. set_add s x) (map type suspects) [])"
    by (rule fold_set_add_map [OF inj_recommendation])
  finally show ?thesis by (simp add: first_occurrences_def)
qed

subsection \<open>Claims\<close>

text \<open>
  C3. After any \<^verbatim>\<open>takeSnapshot\<close> the history holds at most 100 snapshots: the new
  snapshot is appended and the oldest entries beyond 100 are dropped. From an empty
  history, the snapshots of a list of readings leave the most recent 100 in order; after
  150 insertions the first 50 are gone and exactly 100 remain.
\<close>

theorem snapshot_history_window:
  "length (snapshots (snd (takeSnapshot self r))) \<le> 100
 \<and> snapshots (snd (takeSnapshot self r))
      = drop (length (snapshots self) + 1 - 100) (snapshots self @ [fst (takeSnapshot self r)])
 \<and> (snapshots self = [] \<longrightarrow>
       snapshots (take_snapshots self rs)
         = drop (length rs - 100) (map (\<lambda>r. fst (takeSnapshot self r)) rs))
 \<and> (snapshots self = [] \<and> length rs = 150 \<longrightarrow>
       snapshots (take_snapshots self rs) = drop 50 (map (\<lambda>r. fst (takeSnapshot self r)) rs)
     \<and> length (snapshots (take_snapshots self rs)) = 100)"
proof -
  have a: "length (snapshots (snd (takeSnapshot self r))) \<le> 100"
    by (simp add: takeSnapshot_snd last_n_length)
  have b: "snapshots (snd (takeSnapshot self r))
      = drop (length (snapshots self) + 1 - 100) (snapshots self @ [fst (takeSnapshot self r)])"
    by (simp add: takeSnapshot_snd last_n_def)
  have c: "snapshots (take_snapshots self rs)
         = drop (length rs - 100) (map (\<lambda>r. fst (takeSnapshot self r)) rs)"
    if "snapshots self = []"
  proof -
    from that have "self\<lparr>snapshots := last_n 100 []\<rparr> = self"
      by (simp add: last_n_def)
    with take_snapshots_history [where self = self and xs = "[]" and rs = rs] show ?thesis
      by (simp add: last_n_def)
  qed
  from a b c show ?thesis by simp
qed



theorem snapshot_history_window_witness:
  "snapshots (fst (MemoryLeakDetector_constructor default_config plain_host)) = []
 \<and> length (map reading_at [0..<150]) = 150
 \<and> snapshots (take_snapshots (fst (MemoryLeakDetector_constructor default_config plain_host)) (map reading_at [0..<150]))
     = drop 50 (map (\<lambda>r. fst (takeSnapshot (fst (MemoryLeakDetector_constructor default_config plain_host)) r))
                  (map reading_at [0..<150]))
 \<and> length (snapshots (take_snapshots (fst (MemoryLeakDetector_constructor default_config plain_host))
                         (map reading_at [0..<150]))) = 100"
proof -
  have e: "snapshots (fst (MemoryLeakDetector_constructor default_config plain_host)) = []"
    by (simp add: MemoryLeakDetector_constructor_def init_snapshots)
  have l: "length (map reading_at [0..<150]) = 150"
    by simp
  from e l snapshot_history_window
         [of "fst (MemoryLeakDetector_constructor default_config plain_host)" "reading_at 0"
             "map reading_at [0..<150]"]
  show ?thesis by blast
qed

text \<open>
  C4. The growth rule emits a suspect only when the history holds at least two
  snapshots, and then exactly when heap-used grew by more than 10 MB from the snapshot
  before the last to the last; the severity is critical when the growth exceeds 50 MB
  and high otherwise, and the magnitude is the growth in MB rounded to the nearest
  integer. The suspects of category closure in \<^verbatim>\<open>detectLeaks\<close> are those of the growth
  rule. A history ending in 100 MB, 112 MB gives one suspect of magnitude 12 and severity
  high; one ending in 100 MB, 105 MB gives none.
\<close>

theorem growth_rule:
  "growth_suspects self r =
     (if 2 \<le> length (snapshots self) \<and> 10 * MB < heap_increase (snapshots self)
      then [\<lparr>type = Closure,
             severity = (if 50 * MB < heap_increase (snapshots self) then Critical else High),
             description = MemoryIncreased (real_of_int (heap_increase (snapshots self)) / (1024 * 1024))
                                           (real_of_int (cfg_reportInterval (config self)) / 1000),
             count = Math_round (real_of_int (heap_increase (snapshots self)) / (1024 * 1024))\<rparr>]
      else [])
 \<and> filter (\<lambda>x. type x = Closure) (detectLeaks self r) = growth_suspects self r
 \<and> (snapshots self = xs @ [a, b] \<and> heapUsed (memory a) = 100 * MB \<and> heapUsed (memory b) = 112 * MB
      \<longrightarrow> map (\<lambda>x. (type x, severity x, count x)) (growth_suspects self r) = [(Closure, High, 12)])
 \<and> (snapshots self = xs @ [a, b] \<and> heapUsed (memory a) = 100 * MB \<and> heapUsed (memory b) = 105 * MB
      \<longrightarrow> growth_suspects self r = [])"
proof -
  have inc: "heap_increase (xs @ [a, b]) = heapUsed (memory b) - heapUsed (memory a)"
    by (simp add: heap_increase_def butlast_append)
  have r12: "Math_round (real_of_int (12 * MB) / (1024 * 1024)) = 12"
    by (simp only: Math_round_MB) (simp add: MB_def)
  have ex1: "map (\<lambda>x. (type x, severity x, count x)) (growth_suspects self r) = [(Closure, High, 12)]"
    if "snapshots self = xs @ [a, b]" "heapUsed (memory a) = 100 * MB" "heapUsed (memory b) = 112 * MB"
  proof -
    from that inc have "heap_increase (snapshots self) = 12 * MB" by simp
    then show ?thesis
      using that(1) r12 by (simp add: growth_suspects_eq) (simp add: MB_def)
  qed
  have ex2: "growth_suspects self r = []"
    if "snapshots self = xs @ [a, b]" "heapUsed (memory a) = 100 * MB" "heapUsed (memory b) = 105 * MB"
  proof -
    from that inc have "heap_increase (snapshots self) = 5 * MB" by simp
    then show ?thesis
      by (simp add: growth_suspects_eq) (simp add: MB_def)
  qed
  from ex1 ex2 growth_suspects_eq [of self r] detectLeaks_growth_part [of self r]
  show ?thesis by blast
qed



theorem growth_rule_witness:
  "snapshots (fst (MemoryLeakDetector_constructor default_config plain_host)
               \<lparr>snapshots := [snapshot_with_heap (100 * MB), snapshot_with_heap (112 * MB)]\<rparr>)
     = [] @ [snapshot_with_heap (100 * MB), snapshot_with_heap (112 * MB)]
 \<and> heapUsed (memory (snapshot_with_heap (100 * MB))) = 100 * MB
 \<and> heapUsed (memory (snapshot_with_heap (112 * MB))) = 112 * MB
 \<and> map (\<lambda>x. (type x, severity x, count x))
       (growth_suspects (fst (MemoryLeakDetector_constructor default_config plain_host)
               \<lparr>snapshots := [snapshot_with_heap (100 * MB), snapshot_with_heap (112 * MB)]\<rparr>) (reading_at 0))
     = [(Closure, High, 12)]"
proof -
  have a: "snapshots (fst (MemoryLeakDetector_constructor default_config plain_host)
               \<lparr>snapshots := [snapshot_with_heap (100 * MB), snapshot_with_heap (112 * MB)]\<rparr>)
     = [] @ [snapshot_with_heap (100 * MB), snapshot_with_heap (112 * MB)]"
    by simp
  have b: "heapUsed (memory (snapshot_with_heap (100 * MB))) = 100 * MB"
    by (simp add: snapshot_with_heap_def)
  have c: "heapUsed (memory (snapshot_with_heap (112 * MB))) = 112 * MB"
    by (simp add: snapshot_with_heap_def)
  from a b c growth_rule
         [of "fst (MemoryLeakDetector_constructor default_config plain_host)
               \<lparr>snapshots := [snapshot_with_heap (100 * MB), snapshot_with_heap (112 * MB)]\<rparr>"
             "reading_at 0" "[]" "snapshot_with_heap (100 * MB)" "snapshot_with_heap (112 * MB)"]
  show ?thesis by blast
qed

text \<open>
  C6. Every \<^verbatim>\<open>generateReport\<close> takes a snapshot and reports, as its suspect list, what
  \<^verbatim>\<open>detectLeaks\<close> of the listener tracker, of the timer tracker, of the structural
  tracker and of the store tracker return, in this order and each only if the tracker is
  present, followed by the suspect of the growth rule on the new history: one suspect of
  category closure when the history holds two snapshots and heap-used grew by more than
  10 MB, none otherwise. The report carries the timestamp and the four memory counters of
  the new snapshot, this suspect list and its recommendations. The on-leak callback is
  called once per suspect in the order of the list, then the on-report callback once, with
  the report. A tracker is present exactly when its flag is set in the configuration.
\<close>

theorem generateReport_order:
  "(case generateReport self r of
      (report, self', calls) \<Rightarrow>
         self' = snd (takeSnapshot self r)
       \<and> leakSuspects report =
             (case eventTracker self of Some t \<Rightarrow> EventListenerTracker_detectLeaks t | None \<Rightarrow> [])
           @ (case timerTracker self of Some t \<Rightarrow> TimerTracker_detectLeaks t (now r) | None \<Rightarrow> [])
           @ (case domTracker self of Some t \<Rightarrow> DOMTracker_detectLeaks t (document_elements r) | None \<Rightarrow> [])
           @ (case reduxTracker self of Some t \<Rightarrow> ReduxTracker_detectLeaks t (now r) | None \<Rightarrow> [])
           @ (if 2 \<le> length (snapshots self') \<and> 10 * MB < heap_increase (snapshots self')
              then [\<lparr>type = Closure,
                     severity = (if 50 * MB < heap_increase (snapshots self') then Critical else High),
                     description = MemoryIncreased (real_of_int (heap_increase (snapshots self')) / (1024 * 1024))
                                                   (real_of_int (cfg_reportInterval (config self)) / 1000),
                     count = Math_round (real_of_int (heap_increase (snapshots self')) / (1024 * 1024))\<rparr>]
              else [])
       \<and> report = \<lparr>report_timestamp = timestamp (fst (takeSnapshot self r)),
                    report_heapUsed = heapUsed (memory (fst (takeSnapshot self r))),
                    report_heapTotal = heapTotal (memory (fst (takeSnapshot self r))),
                    report_external = external (memory (fst (takeSnapshot self r))),
                    report_arrayBuffers = arrayBuffers (memory (fst (takeSnapshot self r))),
                    leakSuspects = leakSuspects report,
                    recommendations = generateRecommendations (leakSuspects report)\<rparr>
       \<and> calls = map OnLeak (leakSuspects report) @ [OnReport report])
 \<and> (eventTracker (fst (init cfg h)) \<noteq> None) = cfg_enableEventListenerTracking cfg
 \<and> (timerTracker (fst (init cfg h)) \<noteq> None) = cfg_enableTimerTracking cfg
 \<and> (domTracker (fst (init cfg h)) \<noteq> None) = cfg_enableDOMTracking cfg
 \<and> (reduxTracker (fst (init cfg h)) \<noteq> None) = cfg_enableReduxTracking cfg"
proof -
  let ?s' = "snd (takeSnapshot self r)"
  let ?G = "generateReport self r"
  have cfg: "config ?s' = config self"
    by (simp add: takeSnapshot_snd)
  have a: "fst (snd ?G) = ?s'"
    by (simp add: generateReport_def Let_def split_def)
  have b: "leakSuspects (fst ?G) = detectLeaks ?s' r"
    by (simp add: generateReport_def Let_def split_def)
  have c: "fst ?G = \<lparr>report_timestamp = timestamp (fst (takeSnapshot self r)),
                    report_heapUsed = heapUsed (memory (fst (takeSnapshot self r))),
                    report_heapTotal = heapTotal (memory (fst (takeSnapshot self r))),
                    report_external = external (memory (fst (takeSnapshot self r))),
                    report_arrayBuffers = arrayBuffers (memory (fst (takeSnapshot self r))),
                    leakSuspects = leakSuspects (fst ?G),
                    recommendations = generateRecommendations (leakSuspects (fst ?G))\<rparr>"
    by (simp add: generateReport_def Let_def split_def)
  have d: "snd (snd ?G) = map OnLeak (leakSuspects (fst ?G)) @ [OnReport (fst ?G)]"
    by (simp add: generateReport_def Let_def split_def fold_OnLeak)
  have sus: "detectLeaks ?s' r =
             (case eventTracker self of Some t \<Rightarrow> EventListenerTracker_detectLeaks t | None \<Rightarrow> [])
           @ (case timerTracker self of Some t \<Rightarrow> TimerTracker_detectLeaks t (now r) | None \<Rightarrow> [])
           @ (case domTracker self of Some t \<Rightarrow> DOMTracker_detectLeaks t (document_elements r) | None \<Rightarrow> [])
           @ (case reduxTracker self of Some t \<Rightarrow> ReduxTracker_detectLeaks t (now r) | None \<Rightarrow> [])
           @ (if 2 \<le> length (snapshots ?s') \<and> 10 * MB < heap_increase (snapshots ?s')
              then [\<lparr>type = Closure,
                     severity = (if 50 * MB < heap_increase (snapshots ?s') then Critical else High),
                     description = MemoryIncreased (real_of_int (heap_increase (snapshots ?s')) / (1024 * 1024))
                                                   (real_of_int (cfg_reportInterval (config self)) / 1000),
                     count = Math_round (real_of_int (heap_increase (snapshots ?s')) / (1024 * 1024))\<rparr>]
              else [])"
    using tracker_suspects_takeSnapshot [of self r r]
    by (simp only: detectLeaks_split [of ?s' r] growth_suspects_eq [of ?s' r] cfg
                   tracker_suspects_def append_assoc)
  note b' = trans [OF b sus]
  have e: "(eventTracker (fst (init cfg h)) \<noteq> None) = cfg_enableEventListenerTracking cfg"
    by (simp add: init_def Let_def split_def)
  have t: "(timerTracker (fst (init cfg h)) \<noteq> None) = cfg_enableTimerTracking cfg"
    by (simp add: init_def Let_def split_def)
  have m: "(domTracker (fst (init cfg h)) \<noteq> None) = cfg_enableDOMTracking cfg"
    by (simp add: init_def Let_def split_def)
  have x: "(reduxTracker (fst (init cfg h)) \<noteq> None) = cfg_enableReduxTracking cfg"
    by (simp add: init_def Let_def split_def)
  show ?thesis
    unfolding split_def a using a b' c d e t m x by blast
qed

theorem generateReport_order_witness:
  "map (\<lambda>x. (type x, severity x, count x))
       (leakSuspects (fst (generateReport detector_with_history busy_reading)))
     = [(DomReference, High, 20000), (Closure, High, 12)]
 \<and> snd (snd (generateReport detector_with_history busy_reading))
     = map OnLeak (leakSuspects (fst (generateReport detector_with_history busy_reading)))
       @ [OnReport (fst (generateReport detector_with_history busy_reading))]
 \<and> length (snd (snd (generateReport detector_with_history busy_reading))) = 3"
proof -
  note T = generateReport_order [of detector_with_history busy_reading, unfolded split_def, THEN conjunct1]
  note A = T [THEN conjunct1]
  note B = T [THEN conjunct2, THEN conjunct1, unfolded A]
  note D = T [THEN conjunct2, THEN conjunct2, THEN conjunct2]
  have snaps: "snapshots (snd (takeSnapshot detector_with_history busy_reading))
                 = [snapshot_with_heap 0,
                    \<lparr>timestamp = 2000,
                     memory = \<lparr>heapUsed = 12 * MB, heapTotal = 0, external = 0, arrayBuffers = 0\<rparr>,
                     counts = \<lparr>eventListeners = 0, timers_count = 0, domNodes = 20000, detachedNodes_count = 0\<rparr>\<rparr>]"
    by (simp add: takeSnapshot_def detector_with_history_def busy_reading_def getMemoryInfo_def
                  or_default_def Let_def MemoryLeakDetector_constructor_def init_def split_def
                  default_config_def plain_host_def EventListenerTracker_constructor_def
                  TimerTracker_constructor_def DOMTracker_constructor_def ReduxTracker_constructor_def
                  getActiveListeners_def getActiveTimers_def getDOMNodeCount_def
                  getDetachedNodeCount_def map_size_def set_size_def)
  have inc: "heap_increase (snapshots (snd (takeSnapshot detector_with_history busy_reading))) = 12 * MB"
    by (simp add: snaps heap_increase_def snapshot_with_heap_def)
  have r12MB: "Math_round (real_of_int (12 * MB) / (1024 * 1024)) = 12"
    by (simp only: Math_round_MB) (simp add: MB_def)
  have "real_of_int (12 * MB) / (1024 * 1024) = 12"
    by (simp add: MB_def)
  with r12MB have r12: "Math_round 12 = 12"
    by (simp only:)
  have trackers:
    "eventTracker detector_with_history = Some \<lparr>listeners = [], originalAddEventListener = Host 0, originalRemoveEventListener = Host 1\<rparr>"
    "timerTracker detector_with_history = Some \<lparr>timers = [], originalSetTimeout = Host 2, originalSetInterval = Host 3,
         originalClearTimeout = Host 4, originalClearInterval = Host 5\<rparr>"
    "domTracker detector_with_history = Some \<lparr>observer = False, detachedNodes = [], nodeCount = 0\<rparr>"
    "reduxTracker detector_with_history = Some \<lparr>storeSubscriptions = [], selectorCalls = [], originalStoreSubscribe = None, storeRef = None\<rparr>"
    by (simp_all add: detector_with_history_def MemoryLeakDetector_constructor_def init_def split_def Let_def
                  default_config_def plain_host_def globals0_def or_default_def
                  EventListenerTracker_constructor_def
                  TimerTracker_constructor_def DOMTracker_constructor_def ReduxTracker_constructor_def)
  have len: "length (snapshots (snd (takeSnapshot detector_with_history busy_reading))) = 2"
    by (simp add: snaps)
  have L: "map (\<lambda>x. (type x, severity x, count x))
       (leakSuspects (fst (generateReport detector_with_history busy_reading)))
     = [(DomReference, High, 20000), (Closure, High, 12)]"
    unfolding B inc len trackers
    by (simp add: EventListenerTracker_detectLeaks_def TimerTracker_detectLeaks_def
                  DOMTracker_detectLeaks_def ReduxTracker_detectLeaks_def Let_def
                  getDOMNodeCount_def getDetachedNodeCount_def set_size_def map_size_def
                  busy_reading_def)
       (simp add: MB_def r12)
  have "length (leakSuspects (fst (generateReport detector_with_history busy_reading)))
          = length (map (\<lambda>x. (type x, severity x, count x))
                     (leakSuspects (fst (generateReport detector_with_history busy_reading))))"
    by (simp only: length_map)
  also have "\<dots> = 2"
    by (simp only: L) simp
  finally have "length (map OnLeak (leakSuspects (fst (generateReport detector_with_history busy_reading)))
                          @ [OnReport (fst (generateReport detector_with_history busy_reading))]) = 3"
    by simp
  then have "length (snd (snd (generateReport detector_with_history busy_reading))) = 3"
    by (simp only: D)
  with L D show ?thesis by blast
qed


section \<open>The timer tracker's rules\<close>

subsection \<open>Auxiliary facts\<close>

lemma timer_counts_fold:
  "fold (\<lambda>(tid, timer) (oldTimers, totalIntervals).
            (if n - created timer > (th::int) then oldTimers + 1 else oldTimers,
             if timer_type timer = Interval then totalIntervals + 1 else totalIntervals))
      xs (a, b)
   = (a + length (filter (\<lambda>(tid, timer). n - created timer > th) xs),
      b + length (filter (\<lambda>(tid, timer). timer_type timer = Interval) xs))"
  by (induction xs arbitrary: a b) (auto simp: split_def)

lemma TimerTracker_detectLeaks_eq:
  "TimerTracker_detectLeaks self n =
     (if old_timers self n > 10
      then [\<lparr>type = Timer, severity = (if old_timers self n > 50 then Critical else High),
             description = TimersRunningLong (old_timers self n), count = int (old_timers self n)\<rparr>]
      else [])
   @ (if interval_timers self > 20
      then [\<lparr>type = Timer, severity = (if interval_timers self > 100 then Critical else Medium),
             description = ActiveIntervals (interval_timers self), count = int (interval_timers self)\<rparr>]
      else [])"
  using timer_counts_fold [where n = n and th = "5 * 60 * 1000" and xs = "timers self" and a = 0 and b = 0]
  by (simp add: TimerTracker_detectLeaks_def Let_def old_timers_def interval_timers_def)

lemma update_fresh: "k \<notin> fst ` set m \<Longrightarrow> AList.update k v m = m @ [(k, v)]"
  by (induction m) auto

lemma set_intervals_timers:
  "distinct (map fst acq) \<Longrightarrow> fst ` set acq \<inter> fst ` set (timers self) = {} \<Longrightarrow>
   timers (set_intervals self acq)
     = timers self @ map (\<lambda>(tid, t). (tid, \<lparr>timer_type = Interval, created = t\<rparr>)) acq"
proof (induction self acq rule: set_intervals.induct)
  case (1 self)
  then show ?case by simp
next
  case (2 self tid t acq)
  from 2(3) have fresh: "tid \<notin> fst ` set (timers self)" by auto
  then have step: "timers (setInterval self tid t) = timers self @ [(tid, \<lparr>timer_type = Interval, created = t\<rparr>)]"
    by (simp add: setInterval_def map_set_def update_fresh)
  from 2(2,3) have "distinct (map fst acq)"
    and "fst ` set acq \<inter> fst ` set (timers (setInterval self tid t)) = {}"
    by (auto simp: step)
  from 2(1) [OF this] step show ?case by simp
qed

lemma generateReport_suspects:
  "leakSuspects (fst (generateReport self r))
     = tracker_suspects self r @ growth_suspects (snd (takeSnapshot self r)) r"
  by (simp add: generateReport_def Let_def split_def detectLeaks_split tracker_suspects_takeSnapshot)

lemma timer_suspects_type: "x \<in> set (TimerTracker_detectLeaks t n) \<Longrightarrow> type x = Timer"
  by (auto simp: TimerTracker_detectLeaks_eq split: if_splits)

lemma tracker_suspects_timer_part:
  "filter (\<lambda>x. type x = Timer) (tracker_suspects self r)
     = (case timerTracker self of Some t \<Rightarrow> TimerTracker_detectLeaks t (now r) | None \<Rightarrow> [])"
proof -
  have e: "filter (\<lambda>x. type x = Timer) (EventListenerTracker_detectLeaks t) = []" for t
    by (auto simp: EventListenerTracker_detectLeaks_def detectLeaks_fold listener_suspect_def
                   filter_empty_conv)
  have t: "filter (\<lambda>x. type x = Timer) (TimerTracker_detectLeaks t n) = TimerTracker_detectLeaks t n" for t n
    using timer_suspects_type [of _ t n] by (auto simp: filter_id_conv)
  have d: "filter (\<lambda>x. type x = Timer) (DOMTracker_detectLeaks t n) = []" for t n
    by (auto simp: DOMTracker_detectLeaks_def Let_def)
  have "\<forall>x \<in> set (ReduxTracker_detectLeaks t n). type x \<noteq> Timer" for t n
    unfolding ReduxTracker_detectLeaks_def Let_def
    by (rule fold_all) (auto split: if_splits)
  then have x: "filter (\<lambda>x. type x = Timer) (ReduxTracker_detectLeaks t n) = []" for t n
    by (auto simp: filter_empty_conv)
  show ?thesis
    by (simp add: tracker_suspects_def e t d x split: option.splits)
qed

lemma growth_suspects_timer_part:
  "filter (\<lambda>x. type x = Timer) (growth_suspects self r) = []"
  using growth_suspects_type [of _ self r] by (auto simp: filter_empty_conv)

lemma generateReport_timer_part:
  "filter (\<lambda>x. type x = Timer) (leakSuspects (fst (generateReport self r)))
     = (case timerTracker self of Some t \<Rightarrow> TimerTracker_detectLeaks t (now r) | None \<Rightarrow> [])"
  by (simp add: generateReport_suspects tracker_suspects_timer_part growth_suspects_timer_part)

subsection \<open>Claims\<close>

text \<open>
  C5. \<^verbatim>\<open>detectLeaks\<close> of the timer tracker is two independent rules, the second
  appended to the first: more than 10 timers older than five minutes give one suspect
  (critical above 50, else high), and more than 20 repeating timers give one suspect
  (critical above 100, else medium). After 25 \<^verbatim>\<open>setInterval\<close> calls on a new tracker,
  with distinct handles and none older than five minutes, the result is exactly one
  suspect of severity medium and magnitude 25, and so is the timer part of the report of
  a detector that holds this tracker.
\<close>

theorem timer_rules:
  "TimerTracker_detectLeaks self n =
     (if old_timers self n > 10
      then [\<lparr>type = Timer, severity = (if old_timers self n > 50 then Critical else High),
             description = TimersRunningLong (old_timers self n), count = int (old_timers self n)\<rparr>]
      else [])
   @ (if interval_timers self > 20
      then [\<lparr>type = Timer, severity = (if interval_timers self > 100 then Critical else Medium),
             description = ActiveIntervals (interval_timers self), count = int (interval_timers self)\<rparr>]
      else [])
 \<and> (distinct (map fst acq) \<and> length acq = 25 \<and> list_all (\<lambda>(tid, t). n - t \<le> 5 * 60 * 1000) acq
      \<longrightarrow> TimerTracker_detectLeaks (set_intervals (fst (TimerTracker_constructor g)) acq) n
            = [\<lparr>type = Timer, severity = Medium, description = ActiveIntervals 25, count = 25\<rparr>]
        \<and> (timerTracker d = Some (set_intervals (fst (TimerTracker_constructor g)) acq) \<and> now r = n
             \<longrightarrow> filter (\<lambda>x. type x = Timer) (leakSuspects (fst (generateReport d r)))
                   = [\<lparr>type = Timer, severity = Medium, description = ActiveIntervals 25, count = 25\<rparr>]))"
proof -
  have one: "TimerTracker_detectLeaks (set_intervals (fst (TimerTracker_constructor g)) acq) n
            = [\<lparr>type = Timer, severity = Medium, description = ActiveIntervals 25, count = 25\<rparr>]"
    if d: "distinct (map fst acq)" and l: "length acq = 25"
      and f: "list_all (\<lambda>(tid, t). n - t \<le> 5 * 60 * 1000) acq"
  proof -
    define self where "self = set_intervals (fst (TimerTracker_constructor g)) acq"
    have tm: "timers self = map (\<lambda>(tid, t). (tid, \<lparr>timer_type = Interval, created = t\<rparr>)) acq"
      unfolding self_def using set_intervals_timers [OF d, of "fst (TimerTracker_constructor g)"]
      by (simp add: TimerTracker_constructor_def)
    have "filter (\<lambda>(tid, timer). n - created timer > 5 * 60 * 1000) (timers self) = []"
      using f by (auto simp: tm filter_empty_conv list_all_iff)
    then have o: "old_timers self n = 0"
      by (simp add: old_timers_def)
    have "filter (\<lambda>(tid, timer). timer_type timer = Interval) (timers self) = timers self"
      by (auto simp: tm filter_id_conv)
    then have i: "interval_timers self = 25"
      by (simp add: interval_timers_def tm l)
    show ?thesis
      unfolding self_def [symmetric] by (simp add: TimerTracker_detectLeaks_eq o i)
  qed
  have two: "filter (\<lambda>x. type x = Timer) (leakSuspects (fst (generateReport d r)))
                   = [\<lparr>type = Timer, severity = Medium, description = ActiveIntervals 25, count = 25\<rparr>]"
    if "distinct (map fst acq)" "length acq = 25"
       "list_all (\<lambda>(tid, t). n - t \<le> 5 * 60 * 1000) acq"
       "timerTracker d = Some (set_intervals (fst (TimerTracker_constructor g)) acq)" "now r = n"
    using one [OF that(1-3)] that(4,5) by (simp add: generateReport_timer_part)
  from one two TimerTracker_detectLeaks_eq [of self n] show ?thesis by blast
qed

theorem timer_rules_witness:
  "distinct (map fst fresh_intervals) \<and> length fresh_intervals = 25
 \<and> list_all (\<lambda>(tid, t). 2000 - t \<le> 5 * 60 * 1000) fresh_intervals
 \<and> TimerTracker_detectLeaks (set_intervals (fst (TimerTracker_constructor globals0)) fresh_intervals) 2000
      = [\<lparr>type = Timer, severity = Medium, description = ActiveIntervals 25, count = 25\<rparr>]
 \<and> timerTracker (fst (MemoryLeakDetector_constructor default_config plain_host)
        \<lparr>timerTracker := Some (set_intervals (fst (TimerTracker_constructor globals0)) fresh_intervals)\<rparr>)
      = Some (set_intervals (fst (TimerTracker_constructor globals0)) fresh_intervals)
 \<and> now (reading_at 2000) = 2000
 \<and> filter (\<lambda>x. type x = Timer)
       (leakSuspects (fst (generateReport
          (fst (MemoryLeakDetector_constructor default_config plain_host)
             \<lparr>timerTracker := Some (set_intervals (fst (TimerTracker_constructor globals0)) fresh_intervals)\<rparr>)
          (reading_at 2000))))
      = [\<lparr>type = Timer, severity = Medium, description = ActiveIntervals 25, count = 25\<rparr>]"
proof -
  have a: "distinct (map fst fresh_intervals)"
    by (simp add: fresh_intervals_def comp_def distinct_map inj_on_def)
  have b: "length fresh_intervals = 25"
    by (simp add: fresh_intervals_def)
  have c: "list_all (\<lambda>(tid, t). 2000 - t \<le> 5 * 60 * 1000) fresh_intervals"
    by (simp add: fresh_intervals_def list_all_iff)
  have d: "timerTracker (fst (MemoryLeakDetector_constructor default_config plain_host)
        \<lparr>timerTracker := Some (set_intervals (fst (TimerTracker_constructor globals0)) fresh_intervals)\<rparr>)
      = Some (set_intervals (fst (TimerTracker_constructor globals0)) fresh_intervals)"
    by simp
  have e: "now (reading_at 2000) = 2000"
    by (simp add: reading_at_def)
  from a b c d e
    timer_rules [where n = 2000 and acq = fresh_intervals and g = globals0 and r = "reading_at 2000"
      and d = "fst (MemoryLeakDetector_constructor default_config plain_host)
        \<lparr>timerTracker := Some (set_intervals (fst (TimerTracker_constructor globals0)) fresh_intervals)\<rparr>"]
  show ?thesis by blast
qed

section \<open>The recommendations\<close>

subsection \<open>Auxiliary facts\<close>

lemma inj_category_rank: "inj category_rank"
proof (rule injI)
  fix x y
  assume "category_rank x = category_rank y"
  then show "x = y"
    by (cases x; cases y; simp add: category_rank_def)
qed

lemma in_band_Nil: "in_band lo hi []"
  by (simp add: in_band_def)

lemma in_band_append:
  "in_band a b xs \<Longrightarrow> in_band c d ys \<Longrightarrow> b \<le> c \<Longrightarrow> a \<le> c \<Longrightarrow> b \<le> d \<Longrightarrow>
   in_band a d (xs @ ys)"
  by (fastforce simp: in_band_def sorted_append list_all_iff)

lemma in_band_same:
  "list_all (\<lambda>x. category_rank (type x) = k) xs \<Longrightarrow> in_band k k xs"
proof -
  assume a: "list_all (\<lambda>x. category_rank (type x) = k) xs"
  then have "map (\<lambda>x. category_rank (type x)) xs = replicate (length xs) k"
    by (induction xs) auto
  with a show ?thesis
    by (simp add: in_band_def list_all_iff)
qed

lemma in_band_option:
  "(\<And>t. in_band a b (f t)) \<Longrightarrow> in_band a b (case opt of Some t \<Rightarrow> f t | None \<Rightarrow> [])"
  by (cases opt) (simp_all add: in_band_Nil)

lemma listener_band: "in_band 0 0 (EventListenerTracker_detectLeaks t)"
  by (rule in_band_same)
     (auto simp: EventListenerTracker_detectLeaks_def detectLeaks_fold listener_suspect_def
                 list_all_iff category_rank_def)

lemma timer_band: "in_band 1 1 (TimerTracker_detectLeaks t n)"
  by (rule in_band_same)
     (auto simp: TimerTracker_detectLeaks_eq list_all_iff category_rank_def)

lemma dom_band: "in_band 2 3 (DOMTracker_detectLeaks t n)"
  by (auto simp: DOMTracker_detectLeaks_def Let_def in_band_def category_rank_def)

lemma selector_fold_band:
  "in_band 4 5 acc \<Longrightarrow>
   in_band 4 5 (fold (\<lambda>(selector, stats) suspects.
                 if sel_count stats > 1000 \<and> n - lastCalled stats < 60000
                 then suspects @ [\<lparr>type = ReduxSelector,
                                   severity = (if sel_count stats > 5000 then Critical else High),
                                   description = SelectorCalledRecently selector (sel_count stats),
                                   count = int (sel_count stats)\<rparr>]
                 else suspects) xs acc)"
proof (induction xs arbitrary: acc)
  case Nil
  then show ?case by simp
next
  case (Cons a xs)
  obtain selector stats where a: "a = (selector, stats)" by (cases a)
  have one: "in_band 5 5 [\<lparr>type = ReduxSelector,
                                   severity = (if sel_count stats > 5000 then Critical else High),
                                   description = SelectorCalledRecently selector (sel_count stats),
                                   count = int (sel_count stats)\<rparr>]"
    by (simp add: in_band_def category_rank_def)
  from in_band_append [OF Cons.prems one]
  have "in_band 4 5 (acc @ [\<lparr>type = ReduxSelector,
                                   severity = (if sel_count stats > 5000 then Critical else High),
                                   description = SelectorCalledRecently selector (sel_count stats),
                                   count = int (sel_count stats)\<rparr>])"
    by simp
  with Cons.prems Cons.IH a show ?case by simp
qed

lemma redux_band: "in_band 4 5 (ReduxTracker_detectLeaks t n)"
  unfolding ReduxTracker_detectLeaks_def Let_def
  by (rule selector_fold_band) (auto simp: in_band_def category_rank_def)

lemma growth_band: "in_band 6 6 (growth_suspects d r)"
  by (rule in_band_same) (auto simp: growth_suspects_eq category_rank_def)

lemma detectLeaks_band: "in_band 0 6 (detectLeaks d r)"
proof -
  have e: "in_band 0 0 (case eventTracker d of Some t \<Rightarrow> EventListenerTracker_detectLeaks t | None \<Rightarrow> [])"
    by (rule in_band_option) (rule listener_band)
  have t: "in_band 1 1 (case timerTracker d of Some t \<Rightarrow> TimerTracker_detectLeaks t (now r) | None \<Rightarrow> [])"
    by (rule in_band_option) (rule timer_band)
  have m: "in_band 2 3 (case domTracker d of Some t \<Rightarrow> DOMTracker_detectLeaks t (document_elements r) | None \<Rightarrow> [])"
    by (rule in_band_option) (rule dom_band)
  have x: "in_band 4 5 (case reduxTracker d of Some t \<Rightarrow> ReduxTracker_detectLeaks t (now r) | None \<Rightarrow> [])"
    by (rule in_band_option) (rule redux_band)
  note g = growth_band [of d r]
  have "in_band 4 6 ((case reduxTracker d of Some t \<Rightarrow> ReduxTracker_detectLeaks t (now r) | None \<Rightarrow> [])
                       @ growth_suspects d r)"
    by (rule in_band_append [OF x g]) simp_all
  then have "in_band 2 6 ((case domTracker d of Some t \<Rightarrow> DOMTracker_detectLeaks t (document_elements r) | None \<Rightarrow> [])
                       @ (case reduxTracker d of Some t \<Rightarrow> ReduxTracker_detectLeaks t (now r) | None \<Rightarrow> [])
                       @ growth_suspects d r)"
    by (rule in_band_append [OF m]) simp_all
  then have "in_band 1 6 ((case timerTracker d of Some t \<Rightarrow> TimerTracker_detectLeaks t (now r) | None \<Rightarrow> [])
                       @ (case domTracker d of Some t \<Rightarrow> DOMTracker_detectLeaks t (document_elements r) | None \<Rightarrow> [])
                       @ (case reduxTracker d of Some t \<Rightarrow> ReduxTracker_detectLeaks t (now r) | None \<Rightarrow> [])
                       @ growth_suspects d r)"
    by (rule in_band_append [OF t]) simp_all
  then have "in_band 0 6 ((case eventTracker d of Some t \<Rightarrow> EventListenerTracker_detectLeaks t | None \<Rightarrow> [])
                       @ (case timerTracker d of Some t \<Rightarrow> TimerTracker_detectLeaks t (now r) | None \<Rightarrow> [])
                       @ (case domTracker d of Some t \<Rightarrow> DOMTracker_detectLeaks t (document_elements r) | None \<Rightarrow> [])
                       @ (case reduxTracker d of Some t \<Rightarrow> ReduxTracker_detectLeaks t (now r) | None \<Rightarrow> [])
                       @ growth_suspects d r)"
    by (rule in_band_append [OF e]) simp_all
  then show ?thesis
    by (simp add: detectLeaks_split tracker_suspects_def)
qed

lemma first_occurrences_sorted_aux:
  "sorted (map f (acc @ xs)) \<Longrightarrow> sorted (map f (fold (\<lambda>x s. set_add s x) xs acc))"
proof (induction xs arbitrary: acc)
  case Nil
  then show ?case by simp
next
  case (Cons a xs)
  have "sorted (map f (set_add acc a @ xs))"
    using Cons.prems by (auto simp: set_add_def sorted_append)
  then show ?case by (simp add: Cons.IH)
qed

lemma first_occurrences_sorted:
  "sorted (map f xs) \<Longrightarrow> sorted (map f (first_occurrences xs))"
  using first_occurrences_sorted_aux [of f "[]" xs] by (simp add: first_occurrences_def)

lemma first_occurrences_unique:
  assumes "sorted (map category_rank cs)" and "sorted (map category_rank ds)" and "set cs = set ds"
  shows "first_occurrences cs = first_occurrences ds"
proof -
  let ?a = "map category_rank (first_occurrences cs)"
  let ?b = "map category_rank (first_occurrences ds)"
  have da: "distinct ?a" and db: "distinct ?b"
    using inj_category_rank
    by (simp_all add: distinct_map first_occurrences_def fold_set_add_distinct inj_on_def inj_def)
  have sa: "sorted ?a" and sb: "sorted ?b"
    using assms(1,2) by (simp_all add: first_occurrences_sorted)
  have "set ?a = set ?b"
    using assms(3) by (simp add: first_occurrences_def fold_set_add_set)
  with da db sa sb have "?a = ?b"
    by (simp add: sorted_distinct_set_unique)
  with inj_category_rank show ?thesis
    by (simp add: inj_map_eq_map)
qed

lemma detectLeaks_sorted: "sorted (map category_rank (map type (detectLeaks d r)))"
  using detectLeaks_band [of d r] by (simp add: in_band_def comp_def)

subsection \<open>Claims\<close>

text \<open>
  C7. \<^verbatim>\<open>generateRecommendations\<close> is private, and \<^verbatim>\<open>generateReport\<close>, its only
  caller, hands it the result of \<^verbatim>\<open>detectLeaks\<close>. For every suspect list the
  recommendations hold no string twice, and the strings they hold are those of the
  categories present. The categories of a \<^verbatim>\<open>detectLeaks\<close> result always come in one
  order, so two such results with the same set of categories give the same
  recommendations, whatever the multiplicities, severities and descriptions.
\<close>

theorem generateRecommendations_category_set:
  "distinct (generateRecommendations xs)
 \<and> set (generateRecommendations xs) = recommendation ` type ` set xs
 \<and> recommendations (fst (generateReport d r)) = generateRecommendations (detectLeaks (snd (takeSnapshot d r)) r)
 \<and> (type ` set (detectLeaks d r) = type ` set (detectLeaks d' r')
      \<longrightarrow> generateRecommendations (detectLeaks d r) = generateRecommendations (detectLeaks d' r'))"
proof -
  have a: "distinct (generateRecommendations xs)"
    using inj_recommendation
    by (simp add: generateRecommendations_eq first_occurrences_def fold_set_add_distinct
                  distinct_map inj_on_def inj_def)
  have b: "set (generateRecommendations xs) = recommendation ` type ` set xs"
    by (simp add: generateRecommendations_eq first_occurrences_def fold_set_add_set)
  have c: "recommendations (fst (generateReport d r)) = generateRecommendations (detectLeaks (snd (takeSnapshot d r)) r)"
    by (simp add: generateReport_def Let_def split_def)
  have e: "generateRecommendations (detectLeaks d r) = generateRecommendations (detectLeaks d' r')"
    if "type ` set (detectLeaks d r) = type ` set (detectLeaks d' r')"
  proof -
    from that have "set (map type (detectLeaks d r)) = set (map type (detectLeaks d' r'))"
      by simp
    with first_occurrences_unique [OF detectLeaks_sorted [of d r] detectLeaks_sorted [of d' r']]
    show ?thesis by (simp add: generateRecommendations_eq)
  qed
  from a b c e show ?thesis by blast
qed

theorem generateRecommendations_category_set_witness:
  "type ` set (detectLeaks (fst (MemoryLeakDetector_constructor dom_only_config plain_host)) (reading_with_elements 20000))
     = type ` set (detectLeaks (fst (MemoryLeakDetector_constructor dom_only_config plain_host)) (reading_with_elements 60000))
 \<and> detectLeaks (fst (MemoryLeakDetector_constructor dom_only_config plain_host)) (reading_with_elements 20000)
     \<noteq> detectLeaks (fst (MemoryLeakDetector_constructor dom_only_config plain_host)) (reading_with_elements 60000)
 \<and> generateRecommendations
       (detectLeaks (fst (MemoryLeakDetector_constructor dom_only_config plain_host)) (reading_with_elements 20000))
     = generateRecommendations
       (detectLeaks (fst (MemoryLeakDetector_constructor dom_only_config plain_host)) (reading_with_elements 60000))"
proof -
  let ?d = "fst (MemoryLeakDetector_constructor dom_only_config plain_host)"
  have e1: "detectLeaks ?d (reading_with_elements 20000)
              = [\<lparr>type = DomReference, severity = High, description = DomNodesDetected 20000, count = 20000\<rparr>]"
    by (simp add: detectLeaks_def MemoryLeakDetector_constructor_def init_def dom_only_config_def
                  plain_host_def or_default_def Let_def split_def DOMTracker_constructor_def
                  DOMTracker_detectLeaks_def getDOMNodeCount_def getDetachedNodeCount_def
                  set_size_def reading_with_elements_def)
  have e2: "detectLeaks ?d (reading_with_elements 60000)
              = [\<lparr>type = DomReference, severity = Critical, description = DomNodesDetected 60000, count = 60000\<rparr>]"
    by (simp add: detectLeaks_def MemoryLeakDetector_constructor_def init_def dom_only_config_def
                  plain_host_def or_default_def Let_def split_def DOMTracker_constructor_def
                  DOMTracker_detectLeaks_def getDOMNodeCount_def getDetachedNodeCount_def
                  set_size_def reading_with_elements_def)
  have a: "type ` set (detectLeaks ?d (reading_with_elements 20000))
             = type ` set (detectLeaks ?d (reading_with_elements 60000))"
    by (simp add: e1 e2)
  have b: "detectLeaks ?d (reading_with_elements 20000) \<noteq> detectLeaks ?d (reading_with_elements 60000)"
    by (simp add: e1 e2)
  from a b generateRecommendations_category_set [where d = ?d and r = "reading_with_elements 20000"
                  and d' = ?d and r' = "reading_with_elements 60000"]
  show ?thesis by blast
qed


section \<open>Cleanup\<close>

subsection \<open>Auxiliary facts\<close>

lemma stop_not_running: "\<not> isRunning self \<Longrightarrow> stop self h = self"
  by (simp add: stop_def)

lemma stop_fields:
  "\<not> isRunning (stop self h)"
  "eventTracker (stop self h) = eventTracker self"
  "domTracker (stop self h) = domTracker self"
  "reduxTracker (stop self h) = reduxTracker self"
  "(timerTracker (stop self h) = None) = (timerTracker self = None)"
  by (auto simp: stop_def Let_def split: option.splits)

lemma cleanup_counts:
  "snapshots (fst (cleanup self h)) = []"
  "(case eventTracker (fst (cleanup self h)) of Some t \<Rightarrow> getActiveListeners t = 0 | None \<Rightarrow> True)"
  "(case timerTracker (fst (cleanup self h)) of Some t \<Rightarrow> getActiveTimers t = 0 | None \<Rightarrow> True)"
  "(case domTracker (fst (cleanup self h)) of Some t \<Rightarrow> getDetachedNodeCount t = 0 | None \<Rightarrow> True)"
  "(case reduxTracker (fst (cleanup self h)) of Some t \<Rightarrow> getActiveSubscriptions t = 0 | None \<Rightarrow> True)"
  by (auto simp: cleanup_def Let_def split_def EventListenerTracker_cleanup_def
                 TimerTracker_cleanup_def DOMTracker_cleanup_def ReduxTracker_cleanup_def
                 getActiveListeners_def getActiveTimers_def getDetachedNodeCount_def
                 getActiveSubscriptions_def map_size_def set_size_def
           split: option.splits)

lemma cleanup_eq:
  "cleanup self h =
     (let s = stop self h
      in (s\<lparr>eventTracker := map_option (\<lambda>t. t\<lparr>listeners := []\<rparr>) (eventTracker s),
            timerTracker := map_option (\<lambda>t. t\<lparr>timers := []\<rparr>) (timerTracker s),
            domTracker := map_option DOMTracker_cleanup (domTracker s),
            reduxTracker := map_option (\<lambda>t. t\<lparr>storeSubscriptions := [], selectorCalls := []\<rparr>) (reduxTracker s),
            snapshots := []\<rparr>,
          h\<lparr>globals := restored_globals s (globals h), stores := restored_stores s (stores h)\<rparr>))"
  by (simp add: cleanup_def Let_def split_def EventListenerTracker_cleanup_def
                TimerTracker_cleanup_def ReduxTracker_cleanup_def restored_globals_def
                restored_stores_def restore_subscribe_def
           split: option.splits)

lemma DOMTracker_cleanup_twice: "DOMTracker_cleanup (DOMTracker_cleanup t) = DOMTracker_cleanup t"
  by (simp add: DOMTracker_cleanup_def Let_def)

lemma restored_globals_twice:
  "restored_globals (s\<lparr>eventTracker := map_option (\<lambda>t. t\<lparr>listeners := []\<rparr>) (eventTracker s),
            timerTracker := map_option (\<lambda>t. t\<lparr>timers := []\<rparr>) (timerTracker s),
            domTracker := d, reduxTracker := x, snapshots := []\<rparr>) (restored_globals s g)
     = restored_globals s g"
  by (cases "eventTracker s"; cases "timerTracker s") (simp_all add: restored_globals_def)

lemma restored_stores_twice:
  "restored_stores (s\<lparr>eventTracker := e, timerTracker := t, domTracker := d,
            reduxTracker := map_option (\<lambda>t. t\<lparr>storeSubscriptions := [], selectorCalls := []\<rparr>) (reduxTracker s),
            snapshots := []\<rparr>) (restored_stores s heap)
     = restored_stores s heap"
  by (cases "reduxTracker s") (auto simp: restored_stores_def restore_subscribe_def split: option.splits)

lemma cleanup_twice:
  "cleanup (fst (cleanup self h)) (snd (cleanup self h)) = cleanup self h"
proof -
  define s where "s = stop self h"
  define s1 where "s1 = s\<lparr>eventTracker := map_option (\<lambda>t. t\<lparr>listeners := []\<rparr>) (eventTracker s),
            timerTracker := map_option (\<lambda>t. t\<lparr>timers := []\<rparr>) (timerTracker s),
            domTracker := map_option DOMTracker_cleanup (domTracker s),
            reduxTracker := map_option (\<lambda>t. t\<lparr>storeSubscriptions := [], selectorCalls := []\<rparr>) (reduxTracker s),
            snapshots := []\<rparr>"
  define h1 where "h1 = h\<lparr>globals := restored_globals s (globals h), stores := restored_stores s (stores h)\<rparr>"
  have c1: "cleanup self h = (s1, h1)"
    by (simp add: cleanup_eq s_def s1_def h1_def Let_def)
  have "\<not> isRunning s1"
    by (simp add: s1_def s_def stop_fields)
  then have st: "stop s1 h1 = s1"
    by (rule stop_not_running)
  have "cleanup s1 h1 = (s1, h1)"
    unfolding cleanup_eq Let_def st
    by (simp add: s1_def h1_def restored_globals_twice restored_stores_twice
                  option.map_comp comp_def DOMTracker_cleanup_twice)
  with c1 show ?thesis by simp
qed

lemma restored_globals_cong:
  "map_option originalAddEventListener (eventTracker a) = map_option originalAddEventListener (eventTracker b) \<Longrightarrow>
   map_option originalRemoveEventListener (eventTracker a) = map_option originalRemoveEventListener (eventTracker b) \<Longrightarrow>
   map_option originalSetTimeout (timerTracker a) = map_option originalSetTimeout (timerTracker b) \<Longrightarrow>
   map_option originalSetInterval (timerTracker a) = map_option originalSetInterval (timerTracker b) \<Longrightarrow>
   map_option originalClearTimeout (timerTracker a) = map_option originalClearTimeout (timerTracker b) \<Longrightarrow>
   map_option originalClearInterval (timerTracker a) = map_option originalClearInterval (timerTracker b) \<Longrightarrow>
   restored_globals a g = restored_globals b g"
  by (cases "eventTracker a"; cases "eventTracker b"; cases "timerTracker a"; cases "timerTracker b")
     (simp_all add: restored_globals_def)

lemma restored_globals_stop: "restored_globals (stop self h) g = restored_globals self g"
  by (rule restored_globals_cong)
     (auto simp: stop_def Let_def clearInterval_def option.map_comp comp_def split: option.splits)

lemma restored_globals_start: "restored_globals (start self h r tid) g = restored_globals self g"
  by (rule restored_globals_cong)
     (auto simp: start_def Let_def split_def takeSnapshot_def setInterval_def option.map_comp comp_def
           split: option.splits)

lemma restored_stores_stop: "restored_stores (stop self h) heap = restored_stores self heap"
  by (simp add: restored_stores_def stop_fields)

lemma restored_stores_start: "restored_stores (start self h r tid) heap = restored_stores self heap"
  by (simp add: restored_stores_def start_def Let_def split_def takeSnapshot_def)

lemma init_restored_globals:
  "restored_globals (fst (init cfg h)) (globals (snd (init cfg h))) = globals h"
  by (simp add: init_def Let_def split_def restored_globals_def
                EventListenerTracker_constructor_def TimerTracker_constructor_def)

lemma patchStore_restored:
  "heap st = Some f \<Longrightarrow> storeRef t = None \<Longrightarrow>
   restore_subscribe (fst (patchStore t heap st)) (snd (patchStore t heap st)) = heap"
  by (auto simp: patchStore_def restore_subscribe_def)

lemma probe_restored:
  assumes "storeRef t = None"
  shows "restore_subscribe (fst (probe t heap ps)) (snd (probe t heap ps)) = heap"
proof (cases "find (\<lambda>store. case store of None \<Rightarrow> False | Some st \<Rightarrow> heap st \<noteq> None) ps")
  case None
  with assms show ?thesis by (simp add: probe_def restore_subscribe_def)
next
  case (Some a)
  then have "(case a of None \<Rightarrow> False | Some st \<Rightarrow> heap st \<noteq> None)"
    by (auto simp: find_Some_iff)
  then obtain st f where a: "a = Some st" and f: "heap st = Some f"
    by (cases a) auto
  have "probe t heap ps = patchStore t heap st"
    using Some a by (simp add: probe_def)
  with patchStore_restored [where heap = heap and st = st and f = f and t = t, OF f assms]
  show ?thesis by simp
qed

lemma detectStoreFromWindow_probe:
  "fst (detectStoreFromWindow t w heap) = fst (probe t heap [w_REDUX_STORE w, w_store w, w_STORE w])"
  "snd (snd (detectStoreFromWindow t w heap)) = snd (probe t heap [w_REDUX_STORE w, w_store w, w_STORE w])"
  by (simp_all add: detectStoreFromWindow_def probe_def Let_def split_def del: find.simps not_None_eq)

lemma init_restored_stores:
  "restored_stores (fst (init cfg h)) (stores (snd (init cfg h))) = stores h"
proof (cases "cfg_enableReduxTracking cfg")
  case False
  then show ?thesis
    by (simp add: init_def Let_def split_def restored_stores_def)
next
  case True
  show ?thesis
  proof (cases "window h")
    case None
    with True show ?thesis
      by (simp add: init_def Let_def split_def restored_stores_def restore_subscribe_def
                    ReduxTracker_constructor_def)
  next
    case (Some w)
    from probe_restored
           [of "\<lparr>storeSubscriptions = [], selectorCalls = [], originalStoreSubscribe = None, storeRef = None\<rparr>"
               "stores h" "[w_REDUX_STORE w, w_store w, w_STORE w]"]
    show ?thesis using True Some
      by (simp add: init_def Let_def split_def restored_stores_def ReduxTracker_constructor_def
                    detectStoreFromWindow_probe del: find.simps)
  qed
qed

text \<open>
  What \<^verbatim>\<open>cleanup\<close> does restore. A second \<^verbatim>\<open>cleanup\<close> right after the first changes
  neither the detector nor the host. After \<^verbatim>\<open>cleanup\<close> the history is empty, every
  tracker present counts zero live listeners, timers, detached nodes and subscriptions,
  and the listener and timer entry points and the \<^verbatim>\<open>subscribe\<close> property of the
  recorded store hold the functions saved at construction.
\<close>

lemma cleanup_restores_saved_functions:
  "(case cleanup self h of
      (s1, h1) \<Rightarrow>
         cleanup s1 h1 = (s1, h1)
       \<and> snapshots s1 = []
       \<and> (case eventTracker s1 of Some t \<Rightarrow> getActiveListeners t = 0 | None \<Rightarrow> True)
       \<and> (case timerTracker s1 of Some t \<Rightarrow> getActiveTimers t = 0 | None \<Rightarrow> True)
       \<and> (case domTracker s1 of Some t \<Rightarrow> getDetachedNodeCount t = 0 | None \<Rightarrow> True)
       \<and> (case reduxTracker s1 of Some t \<Rightarrow> getActiveSubscriptions t = 0 | None \<Rightarrow> True)
       \<and> globals h1 = restored_globals self (globals h)
       \<and> stores h1 = restored_stores self (stores h))
 \<and> (case MemoryLeakDetector_constructor c h0 of
       (d, h') \<Rightarrow>
          (case cleanup (start d h' r tid) h' of
             (s1, h1) \<Rightarrow> globals h1 = globals h0 \<and> stores h1 = stores h0))"
proof -
  have g: "globals (snd (cleanup s h)) = restored_globals s (globals h)" for s h
    by (simp add: cleanup_eq Let_def restored_globals_stop)
  have st: "stores (snd (cleanup s h)) = restored_stores s (stores h)" for s h
    by (simp add: cleanup_eq Let_def restored_stores_stop)
  have first: "(case cleanup self h of
      (s1, h1) \<Rightarrow>
         cleanup s1 h1 = (s1, h1)
       \<and> snapshots s1 = []
       \<and> (case eventTracker s1 of Some t \<Rightarrow> getActiveListeners t = 0 | None \<Rightarrow> True)
       \<and> (case timerTracker s1 of Some t \<Rightarrow> getActiveTimers t = 0 | None \<Rightarrow> True)
       \<and> (case domTracker s1 of Some t \<Rightarrow> getDetachedNodeCount t = 0 | None \<Rightarrow> True)
       \<and> (case reduxTracker s1 of Some t \<Rightarrow> getActiveSubscriptions t = 0 | None \<Rightarrow> True)
       \<and> globals h1 = restored_globals self (globals h)
       \<and> stores h1 = restored_stores self (stores h))"
    using cleanup_twice [of self h] cleanup_counts [of self h] g [of self h] st [of self h]
    by (simp add: split_def)
  have second: "(case MemoryLeakDetector_constructor c h0 of
       (d, h') \<Rightarrow>
          (case cleanup (start d h' r tid) h' of
             (s1, h1) \<Rightarrow> globals h1 = globals h0 \<and> stores h1 = stores h0))"
    by (simp add: split_def g st restored_globals_start restored_stores_start
                  MemoryLeakDetector_constructor_def init_restored_globals init_restored_stores)
  from first second show ?thesis by blast
qed

lemma cleaned_twice_eq:
  "cleaned_twice =
     (\<lparr>config = \<lparr>cfg_enableEventListenerTracking = True, cfg_enableTimerTracking = True,
                 cfg_enableDOMTracking = True, cfg_enableReduxTracking = True,
                 cfg_enablePerformanceObserver = True, cfg_reportInterval = 30000,
                 cfg_memoryThreshold = 300\<rparr>,
       eventTracker = Some \<lparr>listeners = [], originalAddEventListener = Host 0, originalRemoveEventListener = Host 1\<rparr>,
       timerTracker = Some \<lparr>timers = [], originalSetTimeout = Host 2, originalSetInterval = Host 3,
                             originalClearTimeout = Host 4, originalClearInterval = Host 5\<rparr>,
       domTracker = Some \<lparr>observer = False, detachedNodes = [], nodeCount = 0\<rparr>,
       reduxTracker = Some \<lparr>storeSubscriptions = [], selectorCalls = [], originalStoreSubscribe = None, storeRef = None\<rparr>,
       snapshots = [], reportIntervalId = None, isRunning = False\<rparr>,
      \<lparr>globals = globals0,
       window = Some \<lparr>w_REDUX_STORE = None, w_store = None, w_STORE = None,
                      w_REDUX_DEVTOOLS_EXTENSION = Some (DevToolsHook (Host 9))\<rparr>,
       stores = one_store,
       mutationObserverDefined = False\<rparr>)"
  by (simp add: cleaned_twice_def MemoryLeakDetector_constructor_def init_def default_config_def
                extension_host_def globals0_def or_default_def Let_def split_def
                EventListenerTracker_constructor_def TimerTracker_constructor_def
                DOMTracker_constructor_def ReduxTracker_constructor_def detectStoreFromWindow_def
                setupDevToolsHook_def cleanup_def stop_def EventListenerTracker_cleanup_def
                TimerTracker_cleanup_def DOMTracker_cleanup_def ReduxTracker_cleanup_def)

subsection \<open>Claims\<close>

text \<open>
  C8, at an input where it fails. On a host that has the Redux DevTools extension the
  detector is constructed with the default configuration and \<^verbatim>\<open>cleanup\<close> is called
  twice. The listener and timer entry points and the stores are as before the
  construction, but the extension slot of the window still holds the hook of the store
  tracker, not the function of the host: \<^verbatim>\<open>cleanup\<close> of the store tracker restores
  \<^verbatim>\<open>subscribe\<close> and leaves the hook. The tracker counts zero subscriptions; a store
  created through the hook afterwards is patched, and a subscription on it is tracked, so
  that the count is 1 after \<^verbatim>\<open>cleanup\<close>.
\<close>

theorem cleanup_leaves_devtools_hook:
  "map_option w_REDUX_DEVTOOLS_EXTENSION (window extension_host) = Some (Some (Host 9))
 \<and> map_option w_REDUX_DEVTOOLS_EXTENSION (window (snd cleaned_twice)) = Some (Some (DevToolsHook (Host 9)))
 \<and> globals (snd cleaned_twice) = globals extension_host
 \<and> stores (snd cleaned_twice) = stores extension_host
 \<and> (case reduxTracker (fst cleaned_twice) of
       None \<Rightarrow> False
     | Some t \<Rightarrow>
         getActiveSubscriptions t = 0
       \<and> (case store_calls (t, stores (snd cleaned_twice))
                  [DevToolsCreateStore 1, Subscribe 1 5 9 1000 (1 / 2) 1000] of
            (t', heap') \<Rightarrow> heap' 1 = Some SubscribeShim \<and> getActiveSubscriptions t' = 1))"
  by (simp add: cleaned_twice_eq extension_host_def store_calls_def devToolsCreateStore_def
                patchStore_def one_store_def subscribe_def getActiveSubscriptions_def
                map_size_def map_set_def Let_def)

section \<open>The store tracker\<close>

subsection \<open>Auxiliary facts\<close>

lemma patchStore_noop: "storeRef t \<noteq> None \<Longrightarrow> patchStore t heap st = (t, heap)"
  by (simp add: patchStore_def)

lemma store_call_storeRef:
  "storeRef (fst s) = Some st \<Longrightarrow> storeRef (fst (store_call s c)) = Some st"
  by (cases s; cases c)
     (auto simp: patchStore_def devToolsCreateStore_def subscribe_def call_unsubscribe_def
                 trackSelectorUsage_def ReduxTracker_cleanup_def Let_def
           split: option.splits sum.splits)

lemma store_calls_storeRef:
  "storeRef (fst s) = Some st \<Longrightarrow> storeRef (fst (store_calls s cs)) = Some st"
  unfolding store_calls_def
  by (induction cs arbitrary: s) (simp_all add: store_call_storeRef)

lemma store_call_wrapped:
  "only_recorded_store_wrapped s \<Longrightarrow> only_recorded_store_wrapped (store_call s c)"
  by (cases s; cases c)
     (auto simp: only_recorded_store_wrapped_def patchStore_def devToolsCreateStore_def
                 subscribe_def call_unsubscribe_def trackSelectorUsage_def
                 ReduxTracker_cleanup_def Let_def
           split: option.splits sum.splits if_splits)

lemma store_calls_wrapped:
  "only_recorded_store_wrapped s \<Longrightarrow> only_recorded_store_wrapped (store_calls s cs)"
  unfolding store_calls_def
  by (induction cs arbitrary: s) (simp_all add: store_call_wrapped)

lemma probe_wrapped:
  assumes "\<forall>st. heap st \<noteq> Some SubscribeShim" and "storeRef t = None"
  shows "only_recorded_store_wrapped (probe t heap ps)"
  using assms
  by (auto simp: probe_def only_recorded_store_wrapped_def patchStore_def
           split: option.splits)

lemma new_ReduxTracker_wrapped:
  assumes "\<forall>st. heap st \<noteq> Some SubscribeShim"
  shows "only_recorded_store_wrapped (new_ReduxTracker w heap)"
proof (cases w)
  case None
  with assms show ?thesis
    by (simp add: new_ReduxTracker_def ReduxTracker_constructor_def only_recorded_store_wrapped_def)
next
  case (Some win)
  have "new_ReduxTracker w heap
          = probe \<lparr>storeSubscriptions = [], selectorCalls = [], originalStoreSubscribe = None, storeRef = None\<rparr>
              heap [w_REDUX_STORE win, w_store win, w_STORE win]"
    using Some
    by (simp add: new_ReduxTracker_def ReduxTracker_constructor_def split_def Let_def
                  detectStoreFromWindow_probe prod_eq_iff del: find.simps)
  with probe_wrapped [OF assms] show ?thesis by simp
qed

lemma subscribe_other_store:
  "only_recorded_store_wrapped s \<Longrightarrow> storeRef (fst s) \<noteq> Some st \<Longrightarrow>
   store_call s (Subscribe st l hu n rnd n') = s"
  by (cases s) (auto simp: only_recorded_store_wrapped_def)

lemma patchStore_twice:
  "patchStore (fst (patchStore t heap st)) (snd (patchStore t heap st)) st = patchStore t heap st"
  by (simp add: patchStore_def)

lemma patchStore_wraps:
  "storeRef t = None \<Longrightarrow>
   storeRef (fst (patchStore t heap st)) = Some st
 \<and> originalStoreSubscribe (fst (patchStore t heap st)) = heap st
 \<and> snd (patchStore t heap st) = heap(st := Some SubscribeShim)"
  by (simp add: patchStore_def)

lemma subscribe_entries:
  "subscribe t l hu n rnd n' = Inr (t', u) \<Longrightarrow>
   subscriptionId u = of_int n + rnd \<and> unsubscribe u = hu
 \<and> map_of (storeSubscriptions t')
      = (map_of (storeSubscriptions t))(of_int n + rnd \<mapsto> \<lparr>subscriber = l, sub_created = n'\<rparr>)"
  by (auto simp: subscribe_def Let_def map_set_def update_conv' split: option.splits)

lemma call_unsubscribe_entries:
  "map_of (storeSubscriptions (fst (call_unsubscribe t u)))
     = (map_of (storeSubscriptions t))(subscriptionId u := None)
 \<and> snd (call_unsubscribe t u) = unsubscribe u"
  by (simp add: call_unsubscribe_def map_delete_def delete_conv')

subsection \<open>Claims\<close>

text \<open>
  C9, at an input where it fails. A store is patched and two listeners subscribe through
  the wrapper within the same millisecond and with the same value of \<^verbatim>\<open>Math.random()\<close>.
  Both subscriptions get the same key, so the registry holds one entry, that of the
  second listener. The unsubscribe function returned to the first listener deletes this
  entry and calls the host's unsubscribe function of the first subscription: the registry
  is empty while the second subscription is live.
\<close>

theorem unsubscribe_removes_other_subscription:
  "(case patchStore (fst (new_ReduxTracker None one_store)) one_store 1 of
      (t0, heap) \<Rightarrow>
        (case subscribe t0 1 10 1000 (1 / 2) 1000 of
           Inl e \<Rightarrow> False
         | Inr (t1, u1) \<Rightarrow>
             (case subscribe t1 2 11 1000 (1 / 2) 1000 of
                Inl e \<Rightarrow> False
              | Inr (t2, u2) \<Rightarrow>
                  getActiveSubscriptions t2 = 1
                \<and> map_get (storeSubscriptions t2) (subscriptionId u1) = Some \<lparr>subscriber = 2, sub_created = 1000\<rparr>
                \<and> unsubscribe u1 = 10
                \<and> getActiveSubscriptions (fst (call_unsubscribe t2 u1)) = 0)))"
  by (simp add: new_ReduxTracker_def ReduxTracker_constructor_def patchStore_def one_store_def
                subscribe_def call_unsubscribe_def getActiveSubscriptions_def map_size_def
                map_set_def map_get_def map_delete_def Let_def)

text \<open>
  C10. After \<^verbatim>\<open>patchStore\<close> the tracker has recorded a store; from then on
  \<^verbatim>\<open>patchStore\<close> changes nothing, whatever store it is given, and no call, \<^verbatim>\<open>cleanup\<close>
  included, changes the recorded store. On a host whose stores carry no wrapper before
  the tracker is constructed, only the recorded store ever carries the wrapper, and a
  subscription on any other store leaves the tracker unchanged.
\<close>

theorem patchStore_single_store:
  "storeRef (fst (patchStore t heap st)) \<noteq> None
 \<and> (storeRef t \<noteq> None \<longrightarrow> patchStore t heap st = (t, heap))
 \<and> (storeRef t = Some st' \<longrightarrow> storeRef (fst (store_calls (t, heap) cs)) = Some st')
 \<and> ((\<forall>s. heap0 s \<noteq> Some SubscribeShim) \<longrightarrow>
       only_recorded_store_wrapped (store_calls (new_ReduxTracker w heap0) cs)
     \<and> (storeRef (fst (store_calls (new_ReduxTracker w heap0) cs)) \<noteq> Some st \<longrightarrow>
           store_call (store_calls (new_ReduxTracker w heap0) cs) (Subscribe st l hu n rnd n')
             = store_calls (new_ReduxTracker w heap0) cs))"
proof -
  have z: "storeRef (fst (patchStore t heap st)) \<noteq> None"
    by (simp add: patchStore_def)
  have a: "storeRef t \<noteq> None \<longrightarrow> patchStore t heap st = (t, heap)"
    by (simp add: patchStore_noop)
  have b: "storeRef t = Some st' \<longrightarrow> storeRef (fst (store_calls (t, heap) cs)) = Some st'"
    using store_calls_storeRef [of "(t, heap)" st' cs] by simp
  have c: "only_recorded_store_wrapped (store_calls (new_ReduxTracker w heap0) cs)"
    if "\<forall>s. heap0 s \<noteq> Some SubscribeShim"
    by (rule store_calls_wrapped [OF new_ReduxTracker_wrapped [OF that]])
  from z a b c subscribe_other_store show ?thesis by blast
qed

theorem patchStore_single_store_witness:
  "storeRef (fst (patchStore (fst (new_ReduxTracker None one_store)) one_store 1)) = Some 1
 \<and> patchStore (fst (patchStore (fst (new_ReduxTracker None one_store)) one_store 1))
               (snd (patchStore (fst (new_ReduxTracker None one_store)) one_store 1)) 2
     = patchStore (fst (new_ReduxTracker None one_store)) one_store 1
 \<and> storeRef (fst (store_calls (patchStore (fst (new_ReduxTracker None one_store)) one_store 1)
                      [Cleanup, PatchStore 2])) = Some 1
 \<and> storeRef (fst (store_calls (new_ReduxTracker (Some window_with_store) one_store) [PatchStore 2])) \<noteq> Some 2
 \<and> store_call (store_calls (new_ReduxTracker (Some window_with_store) one_store) [PatchStore 2])
       (Subscribe 2 5 9 1000 (1 / 2) 1000)
     = store_calls (new_ReduxTracker (Some window_with_store) one_store) [PatchStore 2]"
proof -
  let ?p = "patchStore (fst (new_ReduxTracker None one_store)) one_store 1"
  have a: "storeRef (fst ?p) = Some 1"
    by (simp add: patchStore_def new_ReduxTracker_def ReduxTracker_constructor_def)
  have b: "\<forall>s. one_store s \<noteq> Some SubscribeShim"
    by (simp add: one_store_def)
  have c: "storeRef (fst (store_calls (new_ReduxTracker (Some window_with_store) one_store) [PatchStore 2])) \<noteq> Some 2"
    by (simp add: store_calls_def patchStore_def new_ReduxTracker_def ReduxTracker_constructor_def
                  detectStoreFromWindow_def window_with_store_def one_store_def Let_def)
  from a have a': "storeRef (fst ?p) \<noteq> None" by simp
  note inst = patchStore_single_store
         [where t = "fst ?p" and heap = "snd ?p" and st = 2 and st' = 1
            and cs = "[Cleanup, PatchStore 2]"]
  from inst [where ?heap0.0 = one_store and w = None] a a'
  have one: "patchStore (fst ?p) (snd ?p) 2 = ?p"
    and two: "storeRef (fst (store_calls ?p [Cleanup, PatchStore 2])) = Some 1"
    by simp_all
  from patchStore_single_store
         [where ?heap0.0 = one_store and w = "Some window_with_store" and cs = "[PatchStore 2]"
            and st = 2 and l = 5 and hu = 9 and n = 1000 and rnd = "1 / 2" and n' = 1000] b c
  have three: "store_call (store_calls (new_ReduxTracker (Some window_with_store) one_store) [PatchStore 2])
       (Subscribe 2 5 9 1000 (1 / 2) 1000)
     = store_calls (new_ReduxTracker (Some window_with_store) one_store) [PatchStore 2]"
    by blast
  from a one two c three show ?thesis by blast
qed

end
